theory Spec2Isabelle
  imports Complex_Main "HOL-Library.Char_ord" "HOL-Library.List_Lexorder"
begin

section \<open>Capitrack: valuation and reconstruction engine\<close>

text \<open>
  A shallow embedding of the price routes (quotes, dashboard summary, portfolio history,
  daily wealth snapshot), the currency conversion route and the CSV importer.

  Conventions of the embedding:
  \<^item> SQLite \<open>REAL\<close> columns and JavaScript numbers are exact reals: rounding of IEEE
    doubles, \<open>NaN\<close> and the infinities are outside the model.
  \<^item> \<open>TEXT\<close> columns and JavaScript strings are \<open>string\<close>, ordered lexicographically
    by character code, which is how both SQLite (BINARY collation) and JavaScript compare
    the date and timestamp strings of the program.
  \<^item> A table with a primary key is a map from the key; the ledger is the list of its rows
    in insertion order.
  \<^item> The clock and the market-data provider are parameters of every operation.
\<close>

subsection \<open>Data model\<close>

datatype tx_type = Buy | Sell | TransferIn | TransferOut | Dividend | Interest | Fee

record transaction =
  account_id :: nat
  symbol :: string
  tx_type :: tx_type
  quantity :: real
  price :: real
  fee :: real
  currency :: string
  date :: string
  tx_notes :: string

record account =
  acc_id :: nat
  acc_name :: string
  acc_currency :: string

record holding =
  h_symbol :: string
  h_account_id :: nat
  h_account_name :: string
  h_account_currency :: string
  h_quantity :: real
  h_avg_cost :: "real option"

subsection \<open>Holdings Aggregator: the grouped query of the dashboard summary\<close>

text \<open>\<open>t.type IN ('buy','transfer_in')\<close> and \<open>t.type IN ('sell','transfer_out')\<close>.\<close>

fun acquiring :: "tx_type \<Rightarrow> bool" where
  "acquiring Buy = True"
| "acquiring TransferIn = True"
| "acquiring _ = False"

fun disposing :: "tx_type \<Rightarrow> bool" where
  "disposing Sell = True"
| "disposing TransferOut = True"
| "disposing _ = False"

text \<open>The three \<open>SUM(CASE WHEN ... THEN ... ELSE 0 END)\<close> aggregates over the rows of a group.\<close>

definition acq_qty :: "transaction list \<Rightarrow> real" where
  "acq_qty rows = sum_list (map (\<lambda>t. if acquiring (tx_type t) then quantity t else 0) rows)"

definition disp_qty :: "transaction list \<Rightarrow> real" where
  "disp_qty rows = sum_list (map (\<lambda>t. if disposing (tx_type t) then quantity t else 0) rows)"

definition acq_cost :: "transaction list \<Rightarrow> real" where
  "acq_cost rows =
     sum_list (map (\<lambda>t. if acquiring (tx_type t) then quantity t * price t else 0) rows)"

text \<open>\<open>x / NULLIF(y, 0)\<close>: SQL \<open>NULL\<close> is \<open>None\<close>.\<close>

definition div_nullif :: "real \<Rightarrow> real \<Rightarrow> real option" where
  "div_nullif x y = (if y = 0 then None else Some (x / y))"

text \<open>\<open>FROM transactions t JOIN accounts a ON t.account_id = a.id\<close>: \<open>a.id\<close> is the primary
  key of \<open>accounts\<close>, so the table is a map and every transaction joins at most one account.\<close>

definition joined :: "(nat \<rightharpoonup> account) \<Rightarrow> transaction list \<Rightarrow> (transaction \<times> account) list" where
  "joined accounts txs =
     List.map_filter (\<lambda>t. map_option (Pair t) (accounts (account_id t))) txs"

text \<open>\<open>GROUP BY t.symbol, a.id\<close>: the keys, and the rows of one group.\<close>

definition group_keys :: "(transaction \<times> account) list \<Rightarrow> (string \<times> nat) list" where
  "group_keys js = remdups (map (\<lambda>(t, a). (symbol t, acc_id a)) js)"

definition group_rows :: "string \<times> nat \<Rightarrow> (transaction \<times> account) list \<Rightarrow> (transaction \<times> account) list" where
  "group_rows k js = filter (\<lambda>(t, a). (symbol t, acc_id a) = k) js"

text \<open>
  The result row of one group. The columns \<open>a.name\<close> and \<open>a.currency\<close> are bare columns of
  the aggregate query: SQLite evaluates them on one row of the group, \<open>rep\<close>.
\<close>

definition holding_row :: "string \<times> nat \<Rightarrow> transaction \<times> account \<Rightarrow> transaction list \<Rightarrow> holding" where
  "holding_row k rep rows =
     \<lparr> h_symbol = fst k, h_account_id = snd k,
       h_account_name = acc_name (snd rep), h_account_currency = acc_currency (snd rep),
       h_quantity = acq_qty rows - disp_qty rows,
       h_avg_cost = div_nullif (acq_cost rows) (acq_qty rows) \<rparr>"

text \<open>
  \<open>HAVING quantity > 0.00000001\<close>. SQLite resolves an unqualified name in \<open>HAVING\<close> to a
  column of a \<open>FROM\<close> table before it considers a result alias, and \<open>transactions\<close> has a
  column \<open>quantity\<close>: the name is the bare column \<open>t.quantity\<close>, evaluated on the
  row of the group the engine selects (the documentation leaves the choice open), not the
  aggregate aliased \<open>quantity\<close> in the result. The selection is the parameter \<open>bare\<close>.
  SQL leaves the order of the result rows open; the model lists the groups in the order of
  \<open>group_keys\<close>.
\<close>

definition having :: "transaction \<times> account \<Rightarrow> bool" where
  "having rep = (quantity (fst rep) > 1 / 100000000)"

definition holdings_query ::
  "((transaction \<times> account) list \<Rightarrow> transaction \<times> account) \<Rightarrow>
   (nat \<rightharpoonup> account) \<Rightarrow> transaction list \<Rightarrow> holding list" where
  "holdings_query bare accounts txs =
     (let js = joined accounts txs in
      List.map_filter
        (\<lambda>k. let rows = group_rows k js; rep = bare rows in
              if having rep then Some (holding_row k rep (map fst rows)) else None)
        (group_keys js))"

text \<open>The quantity the specification means: acquisitions minus disposals of the pair.\<close>

definition net_quantity :: "(nat \<rightharpoonup> account) \<Rightarrow> transaction list \<Rightarrow> string \<times> nat \<Rightarrow> real" where
  "net_quantity accounts txs k =
     (let rows = map fst (group_rows k (joined accounts txs)) in acq_qty rows - disp_qty rows)"

subsection \<open>Price Oracle: cache, provider and the quote routes\<close>

record price_cache =
  pc_symbol :: string
  pc_price :: real
  pc_currency :: string
  pc_name :: string
  pc_change_percent :: real
  pc_updated_at :: string

text \<open>The provider's quote object; a field the provider leaves out is \<open>None\<close>.\<close>

record yf_quote =
  regularMarketPrice :: "real option"
  q_currency :: "string option"
  shortName :: "string option"
  longName :: "string option"
  regularMarketChangePercent :: "real option"

text \<open>
  \<open>getYahooFinance()\<close> either throws (\<open>Inl\<close> the message) or yields the client, whose
  \<open>quote(symbol)\<close> either throws (\<open>Inl\<close> the message; this includes a quote object that
  cannot be read) or yields the quote.
\<close>

type_synonym yf_client = "string \<Rightarrow> string + yf_quote"
type_synonym provider = "string + yf_client"

text \<open>The three readings of the clock the routes take, as the strings they compare and store.\<close>

record clock =
  current_timestamp :: string
  five_minutes_ago :: string
  iso_now :: string

type_synonym cache_table = "string \<rightharpoonup> price_cache"

text \<open>JavaScript \<open>x || d\<close> on a number (undefined and 0 are falsy) and on a string
  (undefined and the empty string are falsy).\<close>

definition or_num :: "real option \<Rightarrow> real \<Rightarrow> real" where
  "or_num x d = (case x of None \<Rightarrow> d | Some v \<Rightarrow> if v = 0 then d else v)"

definition or_str :: "string option \<Rightarrow> string \<Rightarrow> string" where
  "or_str x d = (case x of None \<Rightarrow> d | Some v \<Rightarrow> if v = [] then d else v)"

text \<open>\<open>toUpperCase()\<close>, on the ASCII letters.\<close>

definition upper_char :: "char \<Rightarrow> char" where
  "upper_char c =
     (case map_of (zip ''abcdefghijklmnopqrstuvwxyz'' ''ABCDEFGHIJKLMNOPQRSTUVWXYZ'') c of
        None \<Rightarrow> c | Some u \<Rightarrow> u)"

definition toUpperCase :: "string \<Rightarrow> string" where
  "toUpperCase s = map upper_char s"

text \<open>\<open>SELECT * FROM price_cache WHERE symbol = ? AND updated_at > datetime('now', '-5 minutes')\<close>.\<close>

definition fresh_lookup :: "clock \<Rightarrow> cache_table \<Rightarrow> string \<Rightarrow> price_cache option" where
  "fresh_lookup clk cache s =
     (case cache s of
        None \<Rightarrow> None
      | Some e \<Rightarrow> if pc_updated_at e > five_minutes_ago clk then Some e else None)"

record quote_data =
  d_symbol :: string
  d_price :: real
  d_currency :: string
  d_name :: string
  d_change_percent :: real

definition make_data :: "string \<Rightarrow> yf_quote \<Rightarrow> quote_data" where
  "make_data sy q =
     \<lparr> d_symbol = sy,
       d_price = or_num (regularMarketPrice q) 0,
       d_currency = or_str (q_currency q) ''USD'',
       d_name = or_str (shortName q) (or_str (longName q) sy),
       d_change_percent = or_num (regularMarketChangePercent q) 0 \<rparr>"

text \<open>\<open>INSERT OR REPLACE INTO price_cache (...) VALUES (?, ?, ?, ?, ?, CURRENT_TIMESTAMP)\<close>.\<close>

definition upsert_price ::
  "clock \<Rightarrow> cache_table \<Rightarrow> string \<Rightarrow> real \<Rightarrow> string \<Rightarrow> string \<Rightarrow> real \<Rightarrow> cache_table" where
  "upsert_price clk cache s p c n ch =
     cache(s \<mapsto> \<lparr> pc_symbol = s, pc_price = p, pc_currency = c, pc_name = n,
                   pc_change_percent = ch, pc_updated_at = current_timestamp clk \<rparr>)"

definition upsert_data :: "clock \<Rightarrow> cache_table \<Rightarrow> quote_data \<Rightarrow> cache_table" where
  "upsert_data clk cache d =
     upsert_price clk cache (d_symbol d) (d_price d) (d_currency d) (d_name d) (d_change_percent d)"

paragraph \<open>GET /quote/:symbol\<close>

text \<open>
  The responses: the fresh cache row, the fetched data, the cache row tagged
  \<open>stale: true\<close>, and status 404 with an error message.
\<close>

datatype quote_response =
    Cached price_cache
  | Fetched quote_data
  | StaleCached price_cache
  | NotFound string

text \<open>What a request leaves behind: its response, the cache, and the calls of
  \<open>yf.quote\<close> it made, in order.\<close>

record quote_outcome =
  response :: quote_response
  cache_after :: cache_table
  fetched :: "string list"

definition quote_failed :: "cache_table \<Rightarrow> string \<Rightarrow> string \<Rightarrow> string list \<Rightarrow> quote_outcome" where
  "quote_failed cache sy msg calls =
     (case cache sy of
        Some stale \<Rightarrow> \<lparr> response = StaleCached stale, cache_after = cache, fetched = calls \<rparr>
      | None \<Rightarrow>
          \<lparr> response = NotFound (''Could not fetch price for '' @ sy @ '': '' @ msg),
            cache_after = cache, fetched = calls \<rparr>)"

definition get_quote :: "clock \<Rightarrow> provider \<Rightarrow> cache_table \<Rightarrow> string \<Rightarrow> quote_outcome" where
  "get_quote clk yf cache param =
     (let sy = toUpperCase param in
      case fresh_lookup clk cache sy of
        Some cached \<Rightarrow> \<lparr> response = Cached cached, cache_after = cache, fetched = [] \<rparr>
      | None \<Rightarrow>
          (case yf of
             Inl msg \<Rightarrow> quote_failed cache sy msg []
           | Inr client \<Rightarrow>
               (case client sy of
                  Inl msg \<Rightarrow> quote_failed cache sy msg [sy]
                | Inr q \<Rightarrow>
                    let data = make_data sy q in
                    \<lparr> response = Fetched data, cache_after = upsert_data clk cache data,
                      fetched = [sy] \<rparr>)))"

paragraph \<open>POST /quotes\<close>

text \<open>
  An entry of the result object: the fresh cache row, the fetched data, the cache row
  tagged \<open>stale: true\<close>, or \<open>{symbol, price: 0, error}\<close>.
\<close>

datatype batch_entry =
    BCached price_cache
  | BFetched quote_data
  | BStale price_cache
  | BError string real string

type_synonym batch_results = "string \<rightharpoonup> batch_entry"

text \<open>
  A value of a parsed JSON body. The route reads \<open>req.body.symbols\<close>, which is any JSON
  value the client sent, or undefined.
\<close>

datatype json =
    JNull
  | JBool bool
  | JNumber real
  | JString string
  | JArray "json list"
  | JObject "(string \<times> json) list"

text \<open>
  The first loop: \<open>results\<close> and \<open>toFetch\<close> after the cache check of each element.
  \<open>sym.toUpperCase()\<close> is a method of strings only: on an element of any other kind the
  call throws a \<open>TypeError\<close>, and the loop is in no \<open>try\<close>, so the handler ends there
  (\<open>None\<close>). The loop only reads the cache.
\<close>

fun check_cache ::
  "clock \<Rightarrow> cache_table \<Rightarrow> json list \<Rightarrow> batch_results \<times> string list \<Rightarrow>
   (batch_results \<times> string list) option" where
  "check_cache clk cache [] st = Some st"
| "check_cache clk cache (sy # sys) (results, toFetch) =
     (case sy of
        JString str \<Rightarrow>
          (let s = toUpperCase str in
           case fresh_lookup clk cache s of
             Some cached \<Rightarrow> check_cache clk cache sys (results(s \<mapsto> BCached cached), toFetch)
           | None \<Rightarrow> check_cache clk cache sys (results, toFetch @ [s]))
      | _ \<Rightarrow> None)"

definition stale_or_error :: "cache_table \<Rightarrow> string \<Rightarrow> string \<Rightarrow> batch_entry" where
  "stale_or_error cache sy msg =
     (case cache sy of Some stale \<Rightarrow> BStale stale | None \<Rightarrow> BError sy 0 msg)"

text \<open>The fetch loop, one awaited call per symbol, each in its own \<open>try\<close>.\<close>

fun fetch_loop ::
  "clock \<Rightarrow> yf_client \<Rightarrow> string list \<Rightarrow> batch_results \<times> cache_table \<times> string list \<Rightarrow>
   batch_results \<times> cache_table \<times> string list" where
  "fetch_loop clk client [] st = st"
| "fetch_loop clk client (sy # sys) (results, cache, calls) =
     (case client sy of
        Inr q \<Rightarrow>
          (let data = make_data sy q in
           fetch_loop clk client sys
             (results(sy \<mapsto> BFetched data), upsert_data clk cache data, calls @ [sy]))
      | Inl msg \<Rightarrow>
          fetch_loop clk client sys
            (results(sy \<mapsto> stale_or_error cache sy msg), cache, calls @ [sy]))"

text \<open>The outer \<open>catch\<close>: the client could not be obtained.\<close>

fun unavailable_loop :: "cache_table \<Rightarrow> string list \<Rightarrow> batch_results \<Rightarrow> batch_results" where
  "unavailable_loop cache [] results = results"
| "unavailable_loop cache (sy # sys) results =
     (case results sy of
        None \<Rightarrow>
          unavailable_loop cache sys
            (results(sy \<mapsto> stale_or_error cache sy ''Service unavailable''))
      | Some _ \<Rightarrow> unavailable_loop cache sys results)"

text \<open>
  What the handler does with the request: status 400, the result object, or neither: the
  \<open>async\<close> handler throws before \<open>res.json\<close> and no result object is sent.
\<close>

datatype batch_response = BadRequest string | Quotes batch_results | Unhandled

record batch_outcome =
  b_response :: batch_response
  b_cache_after :: cache_table
  b_fetched :: "string list"

text \<open>
  POST /quotes, from \<open>req.body.symbols\<close> (\<open>None\<close> when the body has no such field).
  The guard \<open>!symbols || !Array.isArray(symbols)\<close> lets exactly the arrays through, the
  empty one included.
\<close>

definition post_quotes :: "clock \<Rightarrow> provider \<Rightarrow> cache_table \<Rightarrow> json option \<Rightarrow> batch_outcome" where
  "post_quotes clk yf cache body =
     (case body of
        Some (JArray symbols) \<Rightarrow>
          (case check_cache clk cache symbols (Map.empty, []) of
             None \<Rightarrow> \<lparr> b_response = Unhandled, b_cache_after = cache, b_fetched = [] \<rparr>
           | Some (results, toFetch) \<Rightarrow>
               if toFetch = [] then
                 \<lparr> b_response = Quotes results, b_cache_after = cache, b_fetched = [] \<rparr>
               else
                 (case yf of
                    Inr client \<Rightarrow>
                      (case fetch_loop clk client toFetch (results, cache, []) of
                         (results', cache', calls) \<Rightarrow>
                           \<lparr> b_response = Quotes results', b_cache_after = cache',
                             b_fetched = calls \<rparr>)
                  | Inl msg \<Rightarrow>
                      \<lparr> b_response = Quotes (unavailable_loop cache toFetch results),
                        b_cache_after = cache, b_fetched = [] \<rparr>))
      | _ \<Rightarrow>
          \<lparr> b_response = BadRequest ''symbols array required'', b_cache_after = cache,
            b_fetched = [] \<rparr>)"

text \<open>
  The lookup of one symbol taken alone, as the specification words it: the fresh cache
  row if there is one; else the fetched data; else, the fetch having failed, the cache row
  of any age tagged stale, or an error entry.
\<close>

definition isolated_entry :: "clock \<Rightarrow> provider \<Rightarrow> cache_table \<Rightarrow> string \<Rightarrow> batch_entry" where
  "isolated_entry clk yf cache s =
     (case fresh_lookup clk cache s of
        Some e \<Rightarrow> BCached e
      | None \<Rightarrow>
          (case yf of
             Inl _ \<Rightarrow> stale_or_error cache s ''Service unavailable''
           | Inr client \<Rightarrow>
               (case client s of
                  Inr q \<Rightarrow> BFetched (make_data s q)
                | Inl msg \<Rightarrow> stale_or_error cache s msg)))"

text \<open>The entry the fetch loop writes for a symbol, from the cache as the loop finds it.\<close>

definition fetched_entry :: "yf_client \<Rightarrow> cache_table \<Rightarrow> string \<Rightarrow> batch_entry" where
  "fetched_entry client cache s =
     (case client s of Inr q \<Rightarrow> BFetched (make_data s q) | Inl msg \<Rightarrow> stale_or_error cache s msg)"

subsection \<open>Valuation Engine: the dashboard summary\<close>

record currency_rate =
  from_currency :: string
  to_currency :: string
  rate :: real

record user =
  base_currency :: string

type_synonym rate_map = "string \<rightharpoonup> real"
type_synonym price_map = "string \<rightharpoonup> price_cache"

text \<open>\<open>[...new Set(xs)]\<close>: the distinct elements in the order of their first occurrence.\<close>

fun unique :: "'a list \<Rightarrow> 'a list" where
  "unique [] = []"
| "unique (x # xs) = x # filter (\<lambda>y. y \<noteq> x) (unique xs)"

text \<open>The price the summary uses when the fetch fails and the cache has no row.\<close>

definition synthesized :: "string \<Rightarrow> price_cache" where
  "synthesized sy =
     \<lparr> pc_symbol = sy, pc_price = 0, pc_currency = ''USD'', pc_name = sy,
       pc_change_percent = 0, pc_updated_at = [] \<rparr>"

definition fetched_price :: "clock \<Rightarrow> string \<Rightarrow> yf_quote \<Rightarrow> price_cache" where
  "fetched_price clk sy q =
     \<lparr> pc_symbol = sy,
       pc_price = or_num (regularMarketPrice q) 0,
       pc_currency = or_str (q_currency q) ''USD'',
       pc_name = or_str (shortName q) (or_str (longName q) sy),
       pc_change_percent = or_num (regularMarketChangePercent q) 0,
       pc_updated_at = iso_now clk \<rparr>"

text \<open>The price loop of the summary: one \<open>try\<close> per symbol around the cache check, the
  fetch and the cache write; the \<open>catch\<close> takes the cache row of any age or \<open>synthesized\<close>.\<close>

fun fetch_prices ::
  "clock \<Rightarrow> yf_client \<Rightarrow> string list \<Rightarrow> price_map \<times> cache_table \<times> string list \<Rightarrow>
   price_map \<times> cache_table \<times> string list" where
  "fetch_prices clk client [] st = st"
| "fetch_prices clk client (sy # sys) (prices, cache, calls) =
     (case fresh_lookup clk cache sy of
        Some cached \<Rightarrow> fetch_prices clk client sys (prices(sy \<mapsto> cached), cache, calls)
      | None \<Rightarrow>
          (case client sy of
             Inr q \<Rightarrow>
               (let p = fetched_price clk sy q in
                fetch_prices clk client sys
                  (prices(sy \<mapsto> p),
                   upsert_price clk cache sy (pc_price p) (pc_currency p) (pc_name p)
                     (pc_change_percent p),
                   calls @ [sy]))
           | Inl msg \<Rightarrow>
               fetch_prices clk client sys
                 (prices(sy \<mapsto> (case cache sy of Some stale \<Rightarrow> stale | None \<Rightarrow> synthesized sy)),
                  cache, calls @ [sy])))"

text \<open>\<open>rates[`${r.from_currency}_${r.to_currency}`] = r.rate\<close> for every row, in order.\<close>

definition rate_key :: "string \<Rightarrow> string \<Rightarrow> string" where
  "rate_key f t = f @ ''_'' @ t"

definition build_rates :: "currency_rate list \<Rightarrow> rate_map" where
  "build_rates rateRows =
     fold (\<lambda>r m. m(rate_key (from_currency r) (to_currency r) \<mapsto> rate r)) rateRows Map.empty"

text \<open>\<open>user ? user.base_currency : 'EUR'\<close>.\<close>

definition base_of :: "user option \<Rightarrow> string" where
  "base_of u = (case u of Some usr \<Rightarrow> base_currency usr | None \<Rightarrow> ''EUR'')"

text \<open>\<open>prices[h.symbol] || { price: 0, currency: 'USD' }\<close>, as the pair of price and currency.\<close>

definition price_data :: "price_map \<Rightarrow> string \<Rightarrow> real \<times> string" where
  "price_data prices s =
     (case prices s of Some p \<Rightarrow> (pc_price p, pc_currency p) | None \<Rightarrow> (0, ''USD''))"

text \<open>
  The market value and the cost basis of one holding in the base currency. Both routes
  that value holdings (the summary and the daily snapshot) compute them with the same
  expressions; \<open>rates[rateKey] || 1\<close> is \<open>or_num (rates rateKey) 1\<close>.
\<close>

definition marketValue :: "rate_map \<Rightarrow> string \<Rightarrow> price_map \<Rightarrow> holding \<Rightarrow> real" where
  "marketValue rates baseCurrency prices h =
     (let priceData = price_data prices (h_symbol h);
          mv = h_quantity h * fst priceData;
          priceCurrency = (if snd priceData = [] then ''USD'' else snd priceData)
      in if priceCurrency \<noteq> baseCurrency
         then mv * or_num (rates (rate_key priceCurrency baseCurrency)) 1
         else mv)"

definition costBasis :: "rate_map \<Rightarrow> string \<Rightarrow> holding \<Rightarrow> real" where
  "costBasis rates baseCurrency h =
     (let cb = h_quantity h * or_num (h_avg_cost h) 0
      in if h_account_currency h \<noteq> [] \<and> h_account_currency h \<noteq> baseCurrency
         then cb * or_num (rates (rate_key (h_account_currency h) baseCurrency)) 1
         else cb)"

record account_summary =
  s_account_id :: nat
  s_account_name :: string
  market_value :: real
  cost_basis :: real
  holdings_count :: nat

text \<open>
  \<open>accountSummaries\<close> is an object keyed by account id; \<open>Object.values\<close> lists the
  values of integer keys in ascending order, so the model keeps the entries sorted by id.
  An absent entry is created with zeros and then incremented.
\<close>

fun add_to_account ::
  "nat \<Rightarrow> string \<Rightarrow> real \<Rightarrow> real \<Rightarrow> account_summary list \<Rightarrow> account_summary list" where
  "add_to_account a n mv cb [] =
     [\<lparr> s_account_id = a, s_account_name = n, market_value = 0 + mv, cost_basis = 0 + cb,
        holdings_count = 0 + 1 \<rparr>]"
| "add_to_account a n mv cb (s # ss) =
     (if s_account_id s = a then
        s\<lparr> market_value := market_value s + mv, cost_basis := cost_basis s + cb,
           holdings_count := holdings_count s + 1 \<rparr> # ss
      else if a < s_account_id s then
        \<lparr> s_account_id = a, s_account_name = n, market_value = 0 + mv, cost_basis = 0 + cb,
          holdings_count = 0 + 1 \<rparr> # s # ss
      else s # add_to_account a n mv cb ss)"

text \<open>The loop over the holdings: \<open>(accountSummaries, totalWealth, totalCost)\<close>.\<close>

fun totals_loop ::
  "rate_map \<Rightarrow> string \<Rightarrow> price_map \<Rightarrow> holding list \<Rightarrow>
   account_summary list \<times> real \<times> real \<Rightarrow> account_summary list \<times> real \<times> real" where
  "totals_loop rates baseCurrency prices [] st = st"
| "totals_loop rates baseCurrency prices (h # hs) (accountSummaries, totalWealth, totalCost) =
     (let mv = marketValue rates baseCurrency prices h;
          cb = costBasis rates baseCurrency h
      in totals_loop rates baseCurrency prices hs
           (add_to_account (h_account_id h) (h_account_name h) mv cb accountSummaries,
            totalWealth + mv, totalCost + cb))"

text \<open>
  A JavaScript division leaves the finite numbers when the divisor is 0 (the result is an
  infinity or \<open>NaN\<close>, which \<open>res.json\<close> writes as \<open>null\<close>): \<open>None\<close>.
\<close>

definition js_div :: "real \<Rightarrow> real \<Rightarrow> real option" where
  "js_div x y = (if y = 0 then None else Some (x / y))"

record summary =
  total_wealth :: real
  total_cost :: real
  total_gain :: real
  total_gain_percent :: "real option"
  sum_base_currency :: string
  accounts :: "account_summary list"
  sum_holdings_count :: nat

definition make_summary :: "rate_map \<Rightarrow> string \<Rightarrow> price_map \<Rightarrow> holding list \<Rightarrow> summary" where
  "make_summary rates baseCurrency prices holdings =
     (case totals_loop rates baseCurrency prices holdings ([], 0, 0) of
        (accountSummaries, totalWealth, totalCost) \<Rightarrow>
          \<lparr> total_wealth = totalWealth,
            total_cost = totalCost,
            total_gain = totalWealth - totalCost,
            total_gain_percent =
              (if totalCost > 0
               then map_option (\<lambda>x. x * 100) (js_div (totalWealth - totalCost) totalCost)
               else Some 0),
            sum_base_currency = baseCurrency,
            accounts = accountSummaries,
            sum_holdings_count = length holdings \<rparr>)"

datatype summary_response = Summary summary | ServerError string

record summary_outcome =
  sum_response :: summary_response
  sum_cache_after :: cache_table
  sum_fetched :: "string list"

text \<open>
  GET /dashboard/summary. \<open>getYahooFinance()\<close> is awaited outside the per-symbol \<open>try\<close>,
  once there is a symbol to price: when it throws, the outer \<open>catch\<close> answers 500.
\<close>

definition dashboard_summary ::
  "((transaction \<times> account) list \<Rightarrow> transaction \<times> account) \<Rightarrow> clock \<Rightarrow> provider \<Rightarrow>
   (nat \<rightharpoonup> account) \<Rightarrow> transaction list \<Rightarrow> cache_table \<Rightarrow> currency_rate list \<Rightarrow>
   user option \<Rightarrow> summary_outcome" where
  "dashboard_summary bare clk yf accts txs cache rateRows usr =
     (let holdings = holdings_query bare accts txs;
          symbols = unique (map h_symbol holdings)
      in case (if symbols = [] then Inr (Map.empty, cache, [])
               else case yf of
                      Inl msg \<Rightarrow> Inl msg
                    | Inr client \<Rightarrow> Inr (fetch_prices clk client symbols (Map.empty, cache, [])))
         of Inl msg \<Rightarrow>
              \<lparr> sum_response = ServerError msg, sum_cache_after = cache, sum_fetched = [] \<rparr>
          | Inr (prices, cache', calls) \<Rightarrow>
              \<lparr> sum_response =
                  Summary (make_summary (build_rates rateRows) (base_of usr) prices holdings),
                sum_cache_after = cache', sum_fetched = calls \<rparr>)"

text \<open>What the price loop leaves for one symbol, from the cache as the request finds it:
  the price it uses, and the symbol's cache row afterwards.\<close>

definition price_for :: "clock \<Rightarrow> yf_client \<Rightarrow> cache_table \<Rightarrow> string \<Rightarrow> price_cache" where
  "price_for clk client cache s =
     (case fresh_lookup clk cache s of
        Some cached \<Rightarrow> cached
      | None \<Rightarrow>
          (case client s of
             Inr q \<Rightarrow> fetched_price clk s q
           | Inl msg \<Rightarrow> (case cache s of Some stale \<Rightarrow> stale | None \<Rightarrow> synthesized s)))"

definition row_after :: "clock \<Rightarrow> yf_client \<Rightarrow> cache_table \<Rightarrow> string \<Rightarrow> price_cache option" where
  "row_after clk client cache s =
     (case fresh_lookup clk cache s of
        Some cached \<Rightarrow> cache s
      | None \<Rightarrow>
          (case client s of
             Inr q \<Rightarrow> Some ((fetched_price clk s q)\<lparr> pc_updated_at := current_timestamp clk \<rparr>)
           | Inl msg \<Rightarrow> cache s))"

text \<open>The \<open>total_wealth\<close> a response carries, if it is a summary.\<close>

definition response_wealth :: "summary_response \<Rightarrow> real option" where
  "response_wealth r = (case r of Summary S \<Rightarrow> Some (total_wealth S) | ServerError _ \<Rightarrow> None)"

subsection \<open>Daily Wealth Snapshotter\<close>

record account_detail =
  ad_account_id :: nat
  ad_name :: string
  ad_market_value :: real
  ad_cost_basis :: real

text \<open>The \<open>details\<close> column holds the JSON text of this value.\<close>

record details =
  det_accounts :: "account_detail list"
  det_holdings_count :: nat

record daily_wealth =
  dw_date :: string
  dw_total_wealth :: real
  dw_total_cost :: real
  dw_base_currency :: string
  dw_details :: details
  dw_updated_at :: string

text \<open>The snapshot reads each symbol's price from the cache, whatever its age, and never
  calls the provider.\<close>

definition cached_prices :: "cache_table \<Rightarrow> string list \<Rightarrow> price_map" where
  "cached_prices cache symbols =
     fold (\<lambda>sy prices. case cache sy of Some cached \<Rightarrow> prices(sy \<mapsto> cached) | None \<Rightarrow> prices)
       symbols Map.empty"

fun add_to_details ::
  "nat \<Rightarrow> string \<Rightarrow> real \<Rightarrow> real \<Rightarrow> account_detail list \<Rightarrow> account_detail list" where
  "add_to_details a n mv cb [] =
     [\<lparr> ad_account_id = a, ad_name = n, ad_market_value = 0 + mv, ad_cost_basis = 0 + cb \<rparr>]"
| "add_to_details a n mv cb (d # ds) =
     (if ad_account_id d = a then
        d\<lparr> ad_market_value := ad_market_value d + mv, ad_cost_basis := ad_cost_basis d + cb \<rparr> # ds
      else if a < ad_account_id d then
        \<lparr> ad_account_id = a, ad_name = n, ad_market_value = 0 + mv, ad_cost_basis = 0 + cb \<rparr>
          # d # ds
      else d # add_to_details a n mv cb ds)"

fun snapshot_loop ::
  "rate_map \<Rightarrow> string \<Rightarrow> price_map \<Rightarrow> holding list \<Rightarrow>
   account_detail list \<times> real \<times> real \<Rightarrow> account_detail list \<times> real \<times> real" where
  "snapshot_loop rates baseCurrency prices [] st = st"
| "snapshot_loop rates baseCurrency prices (h # hs) (accountDetails, totalWealth, totalCost) =
     (let mv = marketValue rates baseCurrency prices h;
          cb = costBasis rates baseCurrency h
      in snapshot_loop rates baseCurrency prices hs
           (add_to_details (h_account_id h) (h_account_name h) mv cb accountDetails,
            totalWealth + mv, totalCost + cb))"

text \<open>\<open>new Date().toISOString().split('T')[0]\<close>.\<close>

definition today :: "clock \<Rightarrow> string" where
  "today clk = takeWhile (\<lambda>c. c \<noteq> CHR ''T'') (iso_now clk)"

text \<open>
  \<open>INSERT OR REPLACE INTO daily_wealth\<close>: \<open>date\<close> is the primary key, so the row that
  holds the new row's date, if any, is deleted and the new row inserted.
\<close>

definition upsert_daily_wealth :: "daily_wealth \<Rightarrow> daily_wealth list \<Rightarrow> daily_wealth list" where
  "upsert_daily_wealth row table = filter (\<lambda>r. dw_date r \<noteq> dw_date row) table @ [row]"

record snapshot_reply =
  sr_date :: string
  sr_total_wealth :: real
  sr_total_cost :: real
  sr_base_currency :: string

text \<open>POST /daily-wealth: the reply and the table it leaves.\<close>

definition post_daily_wealth ::
  "((transaction \<times> account) list \<Rightarrow> transaction \<times> account) \<Rightarrow> clock \<Rightarrow>
   (nat \<rightharpoonup> account) \<Rightarrow> transaction list \<Rightarrow> cache_table \<Rightarrow> currency_rate list \<Rightarrow>
   user option \<Rightarrow> daily_wealth list \<Rightarrow> snapshot_reply \<times> daily_wealth list" where
  "post_daily_wealth bare clk accts txs cache rateRows usr table =
     (let holdings = holdings_query bare accts txs;
          symbols = unique (map h_symbol holdings);
          prices = cached_prices cache symbols;
          rates = build_rates rateRows;
          baseCurrency = base_of usr
      in case snapshot_loop rates baseCurrency prices holdings ([], 0, 0) of
           (accountDetails, totalWealth, totalCost) \<Rightarrow>
             (\<lparr> sr_date = today clk, sr_total_wealth = totalWealth, sr_total_cost = totalCost,
                sr_base_currency = baseCurrency \<rparr>,
              upsert_daily_wealth
                \<lparr> dw_date = today clk, dw_total_wealth = totalWealth,
                  dw_total_cost = totalCost, dw_base_currency = baseCurrency,
                  dw_details = \<lparr> det_accounts = accountDetails,
                                 det_holdings_count = length holdings \<rparr>,
                  dw_updated_at = current_timestamp clk \<rparr>
                table))"

subsection \<open>Currency Converter: GET /convert\<close>

text \<open>
  The query parameters are strings or absent. \<open>parseFloat\<close> is a parameter: it yields
  the number a string starts with, or \<open>NaN\<close> (\<open>None\<close>, which \<open>res.json\<close> writes as
  \<open>null\<close>). The responses are \<open>{result, rate}\<close>, status 400 and status 404.
\<close>

datatype convert_response =
    Converted "real option" real
  | ConvertBadRequest string
  | ConvertNotFound string

text \<open>\<open>!x\<close> on a query parameter: absent or the empty string.\<close>

definition missing :: "string option \<Rightarrow> bool" where
  "missing x = (case x of None \<Rightarrow> True | Some s \<Rightarrow> s = [])"

text \<open>\<open>SELECT rate FROM currency_rates WHERE from_currency = ? AND to_currency = ?\<close>,
  read with \<open>get\<close>: the first matching row.\<close>

definition select_rate :: "currency_rate list \<Rightarrow> string \<Rightarrow> string \<Rightarrow> currency_rate option" where
  "select_rate rateRows f t = find (\<lambda>r. from_currency r = f \<and> to_currency r = t) rateRows"

definition convert ::
  "(string \<Rightarrow> real option) \<Rightarrow> currency_rate list \<Rightarrow>
   string option \<Rightarrow> string option \<Rightarrow> string option \<Rightarrow> convert_response" where
  "convert parseFloat rateRows from to amount =
     (if missing from \<or> missing to \<or> missing amount then
        ConvertBadRequest ''from, to, and amount required''
      else if toUpperCase (the from) = toUpperCase (the to) then
        Converted (parseFloat (the amount)) 1
      else
        (case select_rate rateRows (toUpperCase (the from)) (toUpperCase (the to)) of
           None \<Rightarrow> ConvertNotFound (''No rate found for '' @ the from @ '' to '' @ the to)
         | Some r \<Rightarrow>
             Converted (map_option (\<lambda>x. x * rate r) (parseFloat (the amount))) (rate r)))"

subsection \<open>Valuation Engine: the portfolio history\<close>

text \<open>
  \<open>SELECT ... FROM transactions t [WHERE t.account_id = ?] ORDER BY t.date ASC\<close>. The
  order of rows of equal date is not specified by SQL; the model keeps their ledger order.
\<close>

definition select_transactions :: "nat option \<Rightarrow> transaction list \<Rightarrow> transaction list" where
  "select_transactions account ledger =
     sort_key date
       (case account of None \<Rightarrow> ledger | Some a \<Rightarrow> filter (\<lambda>t. account_id t = a) ledger)"

text \<open>
  \<open>holdingMap\<close> and \<open>runningHoldings\<close> are objects keyed by symbol: association lists
  in insertion order, where an assignment to a present key replaces its value in place.
\<close>

type_synonym holdings_map = "(string \<times> real) list"

fun assign :: "string \<Rightarrow> 'v \<Rightarrow> (string \<times> 'v) list \<Rightarrow> (string \<times> 'v) list" where
  "assign k v [] = [(k, v)]"
| "assign k v ((k', v') # m) = (if k' = k then (k, v) # m else (k', v') # assign k v m)"

text \<open>
  The body both loops over the transactions share:
  \<open>if (!m[tx.symbol]) m[tx.symbol] = 0;
    if (['buy', 'transfer_in', 'dividend'].includes(tx.type)) m[tx.symbol] += tx.quantity;
    else if (['sell', 'transfer_out'].includes(tx.type)) m[tx.symbol] -= tx.quantity;\<close>
\<close>

definition apply_tx :: "holdings_map \<Rightarrow> transaction \<Rightarrow> holdings_map" where
  "apply_tx m tx =
     (let m0 = (case map_of m (symbol tx) of
                  None \<Rightarrow> assign (symbol tx) 0 m
                | Some q \<Rightarrow> if q = 0 then assign (symbol tx) 0 m else m);
          q0 = (case map_of m0 (symbol tx) of None \<Rightarrow> 0 | Some q \<Rightarrow> q)
      in if tx_type tx \<in> {Buy, TransferIn, Dividend} then assign (symbol tx) (q0 + quantity tx) m0
         else if tx_type tx \<in> {Sell, TransferOut} then assign (symbol tx) (q0 - quantity tx) m0
         else m0)"

text \<open>\<open>Object.keys(holdingMap).filter(s => holdingMap[s] > 0.00000001)\<close>.\<close>

definition active_symbols :: "holdings_map \<Rightarrow> string list" where
  "active_symbols m = map fst (filter (\<lambda>(s, q). q > 1 / 100000000) m)"

text \<open>
  The price history of a symbol: the closes by date key when the chart call succeeds, or
  only \<open>fallback\<close> when it throws. The provider's answer for a symbol (for the start date and
  interval of the request) is a list of quotes, each a date key and a close that may be null.
\<close>

record price_history =
  series :: "(string \<times> real) list"
  fallback :: "real option"

type_synonym chart = "string \<Rightarrow> string + (string \<times> real option) list"

definition series_of :: "(string \<times> real option) list \<Rightarrow> (string \<times> real) list" where
  "series_of quotes =
     fold (\<lambda>(d, close) m. case close of None \<Rightarrow> m | Some c \<Rightarrow> assign d c m) quotes []"

definition history_for :: "chart \<Rightarrow> cache_table \<Rightarrow> string \<Rightarrow> price_history" where
  "history_for ch cache sy =
     (case ch sy of
        Inr quotes \<Rightarrow> \<lparr> series = series_of quotes, fallback = None \<rparr>
      | Inl msg \<Rightarrow>
          \<lparr> series = [], fallback = Some (or_num (map_option pc_price (cache sy)) 0) \<rparr>)"

definition price_histories :: "chart \<Rightarrow> cache_table \<Rightarrow> string list \<Rightarrow> string \<rightharpoonup> price_history" where
  "price_histories ch cache symbols =
     fold (\<lambda>sy m. m(sy \<mapsto> history_for ch cache sy)) symbols Map.empty"

text \<open>\<open>[...allDates].sort()\<close> over the date keys of the histories of the active symbols.\<close>

definition sorted_dates :: "(string \<rightharpoonup> price_history) \<Rightarrow> string list \<Rightarrow> string list" where
  "sorted_dates priceHistories symbols =
     sort (remdups (concat (map (\<lambda>sy. case priceHistories sy of
                                        None \<Rightarrow> []
                                      | Some ph \<Rightarrow> map fst (series ph)) symbols)))"

text \<open>The \<open>while\<close> loop: apply the transactions from \<open>txIndex\<close> on whose date is at most
  \<open>dateStr\<close>.\<close>

function advance :: "transaction list \<Rightarrow> string \<Rightarrow> nat \<times> holdings_map \<Rightarrow> nat \<times> holdings_map" where
  "advance transactions dateStr (txIndex, runningHoldings) =
     (if txIndex < length transactions \<and> date (transactions ! txIndex) \<le> dateStr
      then advance transactions dateStr
             (Suc txIndex, apply_tx runningHoldings (transactions ! txIndex))
      else (txIndex, runningHoldings))"
  by pat_completeness auto
termination
  by (relation "measure (\<lambda>(transactions, dateStr, txIndex, runningHoldings).
        length transactions - txIndex)") auto

declare advance.simps [simp del]

text \<open>
  The price of a symbol at \<open>dateStr\<close>: the close of that date key; else the close of the
  greatest date key that is at most \<open>dateStr\<close>; else \<open>prices.fallback || 0\<close>.
  \<open>priceHistories[symbol] || {}\<close> is the empty history.
\<close>

definition price_at :: "price_history option \<Rightarrow> string \<Rightarrow> real" where
  "price_at entry dateStr =
     (let prices = (case entry of None \<Rightarrow> \<lparr> series = [], fallback = None \<rparr> | Some ph \<Rightarrow> ph)
      in case map_of (series prices) dateStr of
           Some p \<Rightarrow> p
         | None \<Rightarrow>
             (let priceDates = sort (filter (\<lambda>d. d \<le> dateStr) (map fst (series prices)))
              in if priceDates \<noteq> []
                 then (case map_of (series prices) (last priceDates) of Some p \<Rightarrow> p | None \<Rightarrow> 0)
                 else or_num (fallback prices) 0))"

definition total_value :: "(string \<rightharpoonup> price_history) \<Rightarrow> string \<Rightarrow> holdings_map \<Rightarrow> real" where
  "total_value priceHistories dateStr runningHoldings =
     fold (\<lambda>(sy, qty) totalValue.
             if qty \<le> 1 / 100000000 then totalValue
             else totalValue + qty * price_at (priceHistories sy) dateStr)
       runningHoldings 0"

definition total_cost_upto :: "transaction list \<Rightarrow> string \<Rightarrow> real" where
  "total_cost_upto transactions dateStr =
     fold (\<lambda>tx totalCost.
             if tx_type tx \<in> {Buy, TransferIn} then totalCost + quantity tx * price tx
             else totalCost)
       (filter (\<lambda>t. date t \<le> dateStr) transactions) 0"

text \<open>\<open>Math.round(x * 100) / 100\<close>; \<open>Math.round\<close> rounds halves up.\<close>

definition round2 :: "real \<Rightarrow> real" where
  "round2 x = of_int \<lfloor>x * 100 + 1 / 2\<rfloor> / 100"

record history_point =
  hp_date :: string
  hp_value :: real
  hp_cost :: real
  hp_gain :: real

definition make_point ::
  "transaction list \<Rightarrow> (string \<rightharpoonup> price_history) \<Rightarrow> string \<Rightarrow> holdings_map \<Rightarrow> history_point" where
  "make_point transactions priceHistories dateStr runningHoldings =
     (let totalValue = total_value priceHistories dateStr runningHoldings;
          totalCost = total_cost_upto transactions dateStr
      in \<lparr> hp_date = dateStr, hp_value = round2 totalValue, hp_cost = round2 totalCost,
           hp_gain = round2 (totalValue - totalCost) \<rparr>)"

text \<open>The loop over the dates. Each emitted point is paired with the loop variables
  \<open>(txIndex, runningHoldings)\<close> it was computed from.\<close>

fun history_loop ::
  "transaction list \<Rightarrow> (string \<rightharpoonup> price_history) \<Rightarrow> string list \<Rightarrow> nat \<times> holdings_map \<Rightarrow>
   (history_point \<times> nat \<times> holdings_map) list" where
  "history_loop transactions priceHistories [] st = []"
| "history_loop transactions priceHistories (dateStr # dates) st =
     (let st' = advance transactions dateStr st
      in (make_point transactions priceHistories dateStr (snd st'), st')
         # history_loop transactions priceHistories dates st')"

datatype history_response = History "history_point list" | HistoryError string

text \<open>GET /portfolio/history. The client is obtained outside any \<open>try\<close> of the route's
  body, so its failure is answered by the outer \<open>catch\<close> with status 500.\<close>

definition portfolio_history ::
  "(string + chart) \<Rightarrow> cache_table \<Rightarrow> nat option \<Rightarrow> transaction list \<Rightarrow> history_response" where
  "portfolio_history yf cache account ledger =
     (let transactions = select_transactions account ledger in
      if transactions = [] then History []
      else
        let holdingMap = foldl apply_tx [] transactions;
            activeSymbols = active_symbols holdingMap
        in if activeSymbols = [] then History []
           else
             (case yf of
                Inl msg \<Rightarrow> HistoryError msg
              | Inr ch \<Rightarrow>
                  let priceHistories = price_histories ch cache activeSymbols;
                      sortedDates = sorted_dates priceHistories activeSymbols
                  in if sortedDates = [] then History []
                     else History (map fst
                            (history_loop transactions priceHistories sortedDates (0, [])))))"

text \<open>The transactions whose date is at most \<open>d\<close>, in the order of the list: what the
  specification says has been applied, each once, when the point of date \<open>d\<close> is emitted.\<close>

definition applied_upto :: "transaction list \<Rightarrow> string \<Rightarrow> transaction list" where
  "applied_upto txs d = filter (\<lambda>t. date t \<le> d) txs"

text \<open>The quantity a holdings map has for a symbol, 0 when the symbol is absent.\<close>

definition running_quantity :: "holdings_map \<Rightarrow> string \<Rightarrow> real" where
  "running_quantity m s = (case map_of m s of None \<Rightarrow> 0 | Some q \<Rightarrow> q)"


text \<open>
  The value of running holdings at a date, as the specification words it: for each symbol
  with a positive running quantity (above 1e-8), the quantity times the symbol's price at
  that date, summed over the symbols. And the cost at a date: the notional
  \<open>quantity * price\<close> of the buy and transfer_in transactions dated at most \<open>d\<close>, summed.
\<close>

definition holdings_value :: "(string \<rightharpoonup> price_history) \<Rightarrow> string \<Rightarrow> holdings_map \<Rightarrow> real" where
  "holdings_value priceHistories d held =
     sum_list (map (\<lambda>sy. running_quantity held sy * price_at (priceHistories sy) d)
                 (filter (\<lambda>sy. running_quantity held sy > 1 / 100000000) (map fst held)))"

definition acquisition_cost :: "transaction list \<Rightarrow> string \<Rightarrow> real" where
  "acquisition_cost txs d =
     sum_list (map (\<lambda>t. quantity t * price t)
                 (filter (\<lambda>t. acquiring (tx_type t)) (applied_upto txs d)))"
subsection \<open>Import Pipeline: fingerprints and the import of parsed transactions\<close>

text \<open>A parsed row, as every parser of the importer produces it.\<close>

record imported_transaction =
  it_symbol :: string
  it_type :: tx_type
  it_quantity :: real
  it_price :: real
  it_fee :: real
  it_currency :: string
  it_date :: string
  it_notes :: string

text \<open>The text of a type in the ledger, and the decimal text of a natural number.\<close>

fun type_name :: "tx_type \<Rightarrow> string" where
  "type_name Buy = ''buy''"
| "type_name Sell = ''sell''"
| "type_name TransferIn = ''transfer_in''"
| "type_name TransferOut = ''transfer_out''"
| "type_name Dividend = ''dividend''"
| "type_name Interest = ''interest''"
| "type_name Fee = ''fee''"

definition digit :: "nat \<Rightarrow> char" where
  "digit d = ''0123456789'' ! d"

function show_nat :: "nat \<Rightarrow> string" where
  "show_nat n = (if n < 10 then [digit n] else show_nat (n div 10) @ [digit (n mod 10)])"
  by pat_completeness auto
termination
  by (relation "measure id") auto

declare show_nat.simps [simp del]

text \<open>
  \<open>Number(x).toFixed(f)\<close> for \<open>f > 0\<close>: the sign, then the integer nearest to
  \<open>|x| * 10^f\<close> (the larger one on a tie) written with a decimal point before its last
  \<open>f\<close> digits. (Numbers of magnitude 1e21 and more, which JavaScript writes in exponent
  notation, are written in the same way here.)
\<close>

definition toFixed :: "nat \<Rightarrow> real \<Rightarrow> string" where
  "toFixed f x =
     (let n = nat \<lfloor>\<bar>x\<bar> * 10 ^ f + 1 / 2\<rfloor>;
          frac = show_nat (n mod 10 ^ f)
      in (if x < 0 then ''-'' else [])
         @ show_nat (n div 10 ^ f) @ ''.'' @ replicate (f - length frac) CHR ''0'' @ frac)"

text \<open>\<open>(tx.date || '').split('T')[0].split(' ')[0]\<close>.\<close>

definition date_part :: "string \<Rightarrow> string" where
  "date_part d = takeWhile (\<lambda>c. c \<noteq> CHR '' '') (takeWhile (\<lambda>c. c \<noteq> CHR ''T'') d)"

definition buildFingerprint :: "nat \<Rightarrow> string \<Rightarrow> tx_type \<Rightarrow> real \<Rightarrow> real \<Rightarrow> string \<Rightarrow> string" where
  "buildFingerprint account sy ty qty pr d =
     show_nat account @ ''|'' @ sy @ ''|'' @ type_name ty @ ''|'' @ toFixed 8 qty @ ''|''
       @ toFixed 4 pr @ ''|'' @ date_part d"

text \<open>The fingerprint of a ledger row and of a parsed row bound for an account.\<close>

definition row_fingerprint :: "transaction \<Rightarrow> string" where
  "row_fingerprint r =
     buildFingerprint (account_id r) (symbol r) (tx_type r) (quantity r) (price r) (date r)"

definition tx_fingerprint :: "nat \<Rightarrow> imported_transaction \<Rightarrow> string" where
  "tx_fingerprint accountId tx =
     buildFingerprint accountId (it_symbol tx) (it_type tx) (it_quantity tx) (it_price tx)
       (it_date tx)"

text \<open>\<open>getExistingFingerprints\<close>: the set of the fingerprints of the account's rows.\<close>

definition getExistingFingerprints :: "nat \<Rightarrow> transaction list \<Rightarrow> string set" where
  "getExistingFingerprints accountId ledger =
     row_fingerprint ` set (filter (\<lambda>r. account_id r = accountId) ledger)"

text \<open>The row \<open>insert.run(accountId, tx.symbol, ...)\<close> writes.\<close>

definition inserted_row :: "nat \<Rightarrow> imported_transaction \<Rightarrow> transaction" where
  "inserted_row accountId tx =
     \<lparr> account_id = accountId, symbol = it_symbol tx, tx_type = it_type tx,
       quantity = it_quantity tx, price = it_price tx, fee = it_fee tx,
       currency = it_currency tx, date = it_date tx, tx_notes = it_notes tx \<rparr>"

text \<open>
  The loop of \<open>doImport\<close> over the parsed rows from index \<open>i\<close>. The state holds the
  ledger, the in-memory fingerprint set and the counters. An insert the store refuses
  throws; the parameter \<open>refused\<close> gives the message for such a row, and the \<open>catch\<close>
  records it and goes on.
\<close>

record import_state =
  ledger_of :: "transaction list"
  existing :: "string set"
  imported :: nat
  skipped :: nat
  errors :: "string list"

fun import_loop ::
  "(transaction \<Rightarrow> string option) \<Rightarrow> nat \<Rightarrow> nat \<Rightarrow> imported_transaction list \<Rightarrow>
   import_state \<Rightarrow> import_state" where
  "import_loop refused accountId i [] st = st"
| "import_loop refused accountId i (tx # txs) st =
     (let fp = tx_fingerprint accountId tx in
      if fp \<in> existing st then
        import_loop refused accountId (Suc i) txs (st\<lparr> skipped := skipped st + 1 \<rparr>)
      else
        (case refused (inserted_row accountId tx) of
           Some msg \<Rightarrow>
             import_loop refused accountId (Suc i) txs
               (st\<lparr> errors := errors st @ [''Row '' @ show_nat (i + 1) @ '': '' @ msg] \<rparr>)
         | None \<Rightarrow>
             import_loop refused accountId (Suc i) txs
               (st\<lparr> ledger_of := ledger_of st @ [inserted_row accountId tx],
                   existing := insert fp (existing st),
                   imported := imported st + 1 \<rparr>)))"

record import_result =
  r_imported :: nat
  r_skipped :: nat
  r_total :: nat
  r_errors :: "string list"

text \<open>
  \<open>importCSV\<close> from the parsed rows on (the CSV text has been read and its rows turned
  into \<open>parsedTx\<close> by the parser of the detected format): the result and the ledger after.
\<close>

definition import_parsed ::
  "(transaction \<Rightarrow> string option) \<Rightarrow> nat \<Rightarrow> imported_transaction list \<Rightarrow> transaction list \<Rightarrow>
   import_result \<times> transaction list" where
  "import_parsed refused accountId parsedTx ledger =
     (let st = import_loop refused accountId 0 parsedTx
                 \<lparr> ledger_of = ledger, existing = getExistingFingerprints accountId ledger,
                   imported = 0, skipped = 0, errors = [] \<rparr>
      in (\<lparr> r_imported = imported st, r_skipped = skipped st, r_total = length parsedTx,
            r_errors = errors st \<rparr>,
          ledger_of st))"

text \<open>The ledger of the repository's own test "fully sold holdings".\<close>

definition mk_tx :: "nat \<Rightarrow> string \<Rightarrow> tx_type \<Rightarrow> real \<Rightarrow> real \<Rightarrow> string \<Rightarrow> string \<Rightarrow> transaction" where
  "mk_tx a s ty q p c d =
     \<lparr> account_id = a, symbol = s, tx_type = ty, quantity = q, price = p, fee = 0,
       currency = c, date = d, tx_notes = [] \<rparr>"

definition test_accounts :: "nat \<rightharpoonup> account" where
  "test_accounts =
     [1 \<mapsto> \<lparr> acc_id = 1, acc_name = ''Stock'', acc_currency = ''EUR'' \<rparr>,
      2 \<mapsto> \<lparr> acc_id = 2, acc_name = ''Crypto'', acc_currency = ''EUR'' \<rparr>]"

definition fully_sold :: "transaction list" where
  "fully_sold =
     [mk_tx 1 ''AAPL'' Buy 10 (371 / 2) ''USD'' ''2024-01-15'',
      mk_tx 1 ''AAPL'' Sell 10 195 ''USD'' ''2024-02-01'']"


text \<open>A clock, a cache with one fresh and one old row, and a provider that knows one symbol.\<close>

definition test_clock :: clock where
  "test_clock =
     \<lparr> current_timestamp = ''2024-03-01 12:00:00'', five_minutes_ago = ''2024-03-01 11:55:00'',
       iso_now = ''2024-03-01T12:00:00.000Z'' \<rparr>"

definition aapl_row :: price_cache where
  "aapl_row =
     \<lparr> pc_symbol = ''AAPL'', pc_price = 200, pc_currency = ''USD'', pc_name = ''Apple Inc.'',
       pc_change_percent = 1, pc_updated_at = ''2024-03-01 11:58:00'' \<rparr>"

definition msft_row :: price_cache where
  "msft_row =
     \<lparr> pc_symbol = ''MSFT'', pc_price = 400, pc_currency = ''USD'', pc_name = ''Microsoft'',
       pc_change_percent = 0, pc_updated_at = ''2024-02-01 08:00:00'' \<rparr>"

definition test_cache :: cache_table where
  "test_cache = [''AAPL'' \<mapsto> aapl_row, ''MSFT'' \<mapsto> msft_row]"

definition tsla_quote :: yf_quote where
  "tsla_quote =
     \<lparr> regularMarketPrice = Some 250, q_currency = Some ''USD'', shortName = Some ''Tesla'',
       longName = None, regularMarketChangePercent = None \<rparr>"

definition test_client :: yf_client where
  "test_client s = (if s = ''TSLA'' then Inr tsla_quote else Inl ''timeout'')"

text \<open>The valuation scenario of the repository's tests: 10 AAPL bought at 150 in a EUR
  account, priced at 200 USD, with USD to EUR at 0.92.\<close>

definition aapl_holding :: holding where
  "aapl_holding =
     \<lparr> h_symbol = ''AAPL'', h_account_id = 1, h_account_name = ''Stock'',
       h_account_currency = ''EUR'', h_quantity = 10, h_avg_cost = Some 150 \<rparr>"

definition test_rates :: "currency_rate list" where
  "test_rates =
     [\<lparr> from_currency = ''USD'', to_currency = ''EUR'', rate = 92 / 100 \<rparr>,
      \<lparr> from_currency = ''EUR'', to_currency = ''USD'', rate = 109 / 100 \<rparr>]"

text \<open>A ledger with one purchase of a symbol the test provider fails on and the cache
  does not hold.\<close>

definition nvda_ledger :: "transaction list" where
  "nvda_ledger = [mk_tx 1 ''NVDA'' Buy 10 150 ''USD'' ''2024-01-15'']"

definition nvda_holding :: holding where
  "nvda_holding =
     \<lparr> h_symbol = ''NVDA'', h_account_id = 1, h_account_name = ''Stock'',
       h_account_currency = ''EUR'', h_quantity = 10, h_avg_cost = Some 150 \<rparr>"

definition eur_user :: "user option" where
  "eur_user = Some \<lparr> base_currency = ''EUR'' \<rparr>"

text \<open>A ledger with one purchase of the symbol the test provider knows and the cache does
  not hold.\<close>

definition tsla_ledger :: "transaction list" where
  "tsla_ledger = [mk_tx 1 ''TSLA'' Buy 10 150 ''USD'' ''2024-01-15'']"

definition tsla_holding :: holding where
  "tsla_holding =
     \<lparr> h_symbol = ''TSLA'', h_account_id = 1, h_account_name = ''Stock'',
       h_account_currency = ''EUR'', h_quantity = 10, h_avg_cost = Some 150 \<rparr>"

text \<open>A snapshot table that already holds a row of the test clock's day.\<close>

definition old_row :: daily_wealth where
  "old_row =
     \<lparr> dw_date = ''2024-03-01'', dw_total_wealth = 1, dw_total_cost = 1,
       dw_base_currency = ''EUR'',
       dw_details = \<lparr> det_accounts = [], det_holdings_count = 0 \<rparr>,
       dw_updated_at = ''2024-03-01 08:00:00'' \<rparr>"

text \<open>\<open>parseFloat\<close> on the one amount the examples use.\<close>

definition test_parseFloat :: "string \<Rightarrow> real option" where
  "test_parseFloat s = (if s = ''100'' then Some 100 else None)"

text \<open>The repository's test "missing currency rate defaults to 1": AAPL priced in GBP,
  with no GBP to EUR rate stored.\<close>

definition gbp_prices :: price_map where
  "gbp_prices =
     [''AAPL'' \<mapsto> \<lparr> pc_symbol = ''AAPL'', pc_price = 200, pc_currency = ''GBP'',
                     pc_name = ''Apple Inc.'', pc_change_percent = 0,
                     pc_updated_at = ''2024-03-01 11:58:00'' \<rparr>]"

text \<open>The ledger of the repository's test "running holdings accumulate over time", a
  price series, and a ledger with a single dividend.\<close>

definition aapl_ledger :: "transaction list" where
  "aapl_ledger =
     [mk_tx 1 ''AAPL'' Buy 10 150 ''USD'' ''2024-01-15'',
      mk_tx 1 ''AAPL'' Buy 5 160 ''USD'' ''2024-02-15'',
      mk_tx 1 ''AAPL'' Sell 3 170 ''USD'' ''2024-03-15'']"

definition aapl_chart :: chart where
  "aapl_chart s =
     (if s = ''AAPL''
      then Inr [(''2024-01-01'', Some 180), (''2024-02-01'', Some 190), (''2024-03-01'', Some 200),
                (''2024-04-01'', Some 210)]
      else Inl ''no data'')"

definition dividend_ledger :: "transaction list" where
  "dividend_ledger = [mk_tx 1 ''AAPL'' Dividend (25 / 2) 1 ''USD'' ''2024-03-01'']"

definition aapl_history :: price_history where
  "aapl_history =
     \<lparr> series = [(''2024-01-01'', 180), (''2024-02-01'', 190), (''2024-03-01'', 200),
                  (''2024-04-01'', 210)],
       fallback = None \<rparr>"

text \<open>The row of the repository's deduplication tests, and the same row with a fee.\<close>

definition aapl_tx :: imported_transaction where
  "aapl_tx =
     \<lparr> it_symbol = ''AAPL'', it_type = Buy, it_quantity = 10, it_price = 371 / 2, it_fee = 0,
       it_currency = ''USD'', it_date = ''2024-01-15'', it_notes = [] \<rparr>"

definition msft_tx :: imported_transaction where
  "msft_tx =
     \<lparr> it_symbol = ''MSFT'', it_type = Buy, it_quantity = 10, it_price = 371 / 2, it_fee = 0,
       it_currency = ''USD'', it_date = ''2024-01-15'', it_notes = [] \<rparr>"

definition accepts_all :: "transaction \<Rightarrow> string option" where
  "accepts_all r = None"

text \<open>A ledger whose first AAPL row is a fee of quantity 0, followed by a purchase.\<close>

definition fee_then_buy :: "transaction list" where
  "fee_then_buy =
     [mk_tx 1 ''AAPL'' Fee 0 0 ''USD'' ''2024-01-10'',
      mk_tx 1 ''AAPL'' Buy 10 150 ''USD'' ''2024-01-15'']"

section \<open>Verification\<close>

subsection \<open>Facts about the test data\<close>

lemma fully_sold_joined:
  "joined test_accounts fully_sold =
     [(mk_tx 1 ''AAPL'' Buy 10 (371 / 2) ''USD'' ''2024-01-15'',
       \<lparr> acc_id = 1, acc_name = ''Stock'', acc_currency = ''EUR'' \<rparr>),
      (mk_tx 1 ''AAPL'' Sell 10 195 ''USD'' ''2024-02-01'',
       \<lparr> acc_id = 1, acc_name = ''Stock'', acc_currency = ''EUR'' \<rparr>)]"
  by (simp add: joined_def List.map_filter_def test_accounts_def fully_sold_def mk_tx_def)

lemma upper_examples:
  "toUpperCase ''aapl'' = ''AAPL''" "toUpperCase ''msft'' = ''MSFT''"
  "toUpperCase ''tsla'' = ''TSLA''" "toUpperCase ''nvda'' = ''NVDA''"
  by (simp_all add: toUpperCase_def upper_char_def)

lemma test_fresh:
  "fresh_lookup test_clock test_cache ''AAPL'' = Some aapl_row"
  "fresh_lookup test_clock test_cache ''MSFT'' = None"
  "fresh_lookup test_clock test_cache ''TSLA'' = None"
  "fresh_lookup test_clock test_cache ''NVDA'' = None"
  by (simp_all add: fresh_lookup_def test_cache_def test_clock_def aapl_row_def msft_row_def)

lemma test_lookup:
  "test_cache ''AAPL'' = Some aapl_row" "test_cache ''MSFT'' = Some msft_row"
  "test_cache ''TSLA'' = None" "test_cache ''NVDA'' = None"
  by (simp_all add: test_cache_def)

lemma tsla_data:
  "make_data ''TSLA'' tsla_quote =
     \<lparr> d_symbol = ''TSLA'', d_price = 250, d_currency = ''USD'', d_name = ''Tesla'',
       d_change_percent = 0 \<rparr>"
  by (simp add: make_data_def tsla_quote_def or_num_def or_str_def)

lemma test_rate_lookup:
  "build_rates test_rates ''USD_EUR'' = Some (92 / 100)"
  "build_rates test_rates ''EUR_USD'' = Some (109 / 100)"
  "build_rates test_rates ''GBP_EUR'' = None"
  by (simp_all add: build_rates_def test_rates_def rate_key_def)

lemma aapl_values:
  "marketValue (build_rates test_rates) ''EUR'' test_cache aapl_holding = 1840"
  "costBasis (build_rates test_rates) ''EUR'' aapl_holding = 1500"
  by (simp_all add: marketValue_def costBasis_def price_data_def test_lookup aapl_row_def
      aapl_holding_def rate_key_def test_rate_lookup or_num_def Let_def)

lemma nvda_holdings: "holdings_query last test_accounts nvda_ledger = [nvda_holding]"
  by (simp add: holdings_query_def joined_def List.map_filter_def test_accounts_def
      nvda_ledger_def mk_tx_def group_keys_def group_rows_def having_def holding_row_def
      acq_qty_def disp_qty_def acq_cost_def div_nullif_def nvda_holding_def)

subsection \<open>Holdings Aggregator\<close>

text \<open>Every row the query returns carries the net quantity of its pair and the
  quantity-weighted average cost of the pair's acquisitions.\<close>

lemma holdings_query_rows:
  assumes "h \<in> set (holdings_query bare accts txs)"
  shows "h_quantity h = net_quantity accts txs (h_symbol h, h_account_id h)
         \<and> h_avg_cost h =
             (let rows = map fst (group_rows (h_symbol h, h_account_id h) (joined accts txs))
              in div_nullif (acq_cost rows) (acq_qty rows))"
proof -
  from assms obtain k where
    "h = holding_row k (bare (group_rows k (joined accts txs)))
           (map fst (group_rows k (joined accts txs)))"
    by (auto simp: holdings_query_def Let_def List.map_filter_def split: if_splits)
  then show ?thesis
    by (simp add: holding_row_def net_quantity_def Let_def)
qed

text \<open>
  Claim C1. The aggregator reports, per (symbol, account), quantity = acquisitions minus
  disposals and the quantity-weighted average acquisition cost, and a pair appears in the
  output if and only if that quantity exceeds 1e-8.

  The filter does not hold on the code. On the ledger of the repository's test "fully sold
  holdings" (buy 10 AAPL, sell 10 AAPL in account 1) the pair (AAPL, 1) has net quantity 0,
  yet the query returns it, with quantity 0, whichever row of the group the engine
  evaluates the bare column of the \<open>HAVING\<close> clause on: both rows have \<open>t.quantity = 10\<close>.
\<close>

theorem holdings_query_reports_fully_sold:
  assumes bare: "\<And>rows. rows \<noteq> [] \<Longrightarrow> bare rows \<in> set rows"
  shows "map (\<lambda>h. (h_symbol h, h_account_id h, h_quantity h))
           (holdings_query bare test_accounts fully_sold) = [(''AAPL'', 1, 0)]
         \<and> \<not> net_quantity test_accounts fully_sold (''AAPL'', 1) > 1 / 100000000"
proof -
  let ?js = "joined test_accounts fully_sold"
  have keys: "group_keys ?js = [(''AAPL'', 1)]"
    by (simp add: fully_sold_joined group_keys_def mk_tx_def)
  have rows: "group_rows (''AAPL'', 1) ?js = ?js"
    by (simp add: fully_sold_joined group_rows_def mk_tx_def)
  have "bare ?js \<in> set ?js"
    by (rule bare) (simp add: fully_sold_joined)
  then have hav: "having (bare ?js)"
    by (auto simp: fully_sold_joined having_def mk_tx_def)
  have q: "acq_qty (map fst ?js) - disp_qty (map fst ?js) = 0"
    by (simp add: fully_sold_joined acq_qty_def disp_qty_def mk_tx_def)
  show ?thesis
    using hav q
    by (simp add: holdings_query_def Let_def keys [unfolded One_nat_def]
        rows [unfolded One_nat_def] List.map_filter_def holding_row_def net_quantity_def)
qed

theorem holdings_query_reports_fully_sold_witness:
  "map (\<lambda>h. (h_symbol h, h_account_id h, h_quantity h))
     (holdings_query last test_accounts fully_sold) = [(''AAPL'', 1, 0)]
   \<and> \<not> net_quantity test_accounts fully_sold (''AAPL'', 1) > 1 / 100000000"
  using holdings_query_reports_fully_sold [of last] by simp

text \<open>
  The filter also fails in the other direction when the engine evaluates the bare column
  on a row of small quantity: with the first row of the group selected, a pair of net
  quantity 10 is not reported.
\<close>

lemma holdings_query_can_drop_active:
  "holdings_query hd test_accounts fee_then_buy = []
   \<and> net_quantity test_accounts fee_then_buy (''AAPL'', 1) = 10"
  by (simp add: holdings_query_def net_quantity_def joined_def List.map_filter_def
      test_accounts_def fee_then_buy_def mk_tx_def group_keys_def group_rows_def having_def
      acq_qty_def disp_qty_def)

subsection \<open>Price Oracle\<close>

text \<open>
  Claim C3. The single-quote operation answers from the cache, without calling the
  provider, when the cache holds a row of the symbol fresher than five minutes. Otherwise
  it fetches; on success it returns the fetched data and replaces the symbol's cache row
  by them. When the fetch fails (the client cannot be obtained, or its call throws) it
  returns the symbol's cache row of any age, tagged stale, and leaves the cache as it was;
  with no cache row it answers 404 with an error message and no price.
\<close>

theorem get_quote_policy:
  "(\<forall>e. fresh_lookup clk cache (toUpperCase param) = Some e \<longrightarrow>
      get_quote clk yf cache param = \<lparr> response = Cached e, cache_after = cache, fetched = [] \<rparr>)
   \<and> (\<forall>client q. fresh_lookup clk cache (toUpperCase param) = None \<and> yf = Inr client
         \<and> client (toUpperCase param) = Inr q \<longrightarrow>
       response (get_quote clk yf cache param) = Fetched (make_data (toUpperCase param) q)
       \<and> cache_after (get_quote clk yf cache param) =
           cache(toUpperCase param \<mapsto>
             \<lparr> pc_symbol = toUpperCase param,
               pc_price = d_price (make_data (toUpperCase param) q),
               pc_currency = d_currency (make_data (toUpperCase param) q),
               pc_name = d_name (make_data (toUpperCase param) q),
               pc_change_percent = d_change_percent (make_data (toUpperCase param) q),
               pc_updated_at = current_timestamp clk \<rparr>))
   \<and> (\<forall>client msg e. fresh_lookup clk cache (toUpperCase param) = None
         \<and> (yf = Inl msg \<or> yf = Inr client \<and> client (toUpperCase param) = Inl msg)
         \<and> cache (toUpperCase param) = Some e \<longrightarrow>
       response (get_quote clk yf cache param) = StaleCached e
       \<and> cache_after (get_quote clk yf cache param) = cache)
   \<and> (\<forall>client msg. (yf = Inl msg \<or> yf = Inr client \<and> client (toUpperCase param) = Inl msg)
         \<and> cache (toUpperCase param) = None \<longrightarrow>
       response (get_quote clk yf cache param) =
         NotFound (''Could not fetch price for '' @ toUpperCase param @ '': '' @ msg)
       \<and> cache_after (get_quote clk yf cache param) = cache)"
  by (auto simp: get_quote_def quote_failed_def Let_def upsert_data_def upsert_price_def
      make_data_def fresh_lookup_def split: option.splits sum.splits)

theorem get_quote_policy_witness:
  "get_quote test_clock (Inr test_client) test_cache ''aapl''
     = \<lparr> response = Cached aapl_row, cache_after = test_cache, fetched = [] \<rparr>
   \<and> response (get_quote test_clock (Inr test_client) test_cache ''tsla'')
       = Fetched \<lparr> d_symbol = ''TSLA'', d_price = 250, d_currency = ''USD'', d_name = ''Tesla'',
                   d_change_percent = 0 \<rparr>
   \<and> cache_after (get_quote test_clock (Inr test_client) test_cache ''tsla'') ''TSLA''
       = Some \<lparr> pc_symbol = ''TSLA'', pc_price = 250, pc_currency = ''USD'', pc_name = ''Tesla'',
                pc_change_percent = 0, pc_updated_at = ''2024-03-01 12:00:00'' \<rparr>
   \<and> response (get_quote test_clock (Inr test_client) test_cache ''msft'') = StaleCached msft_row
   \<and> response (get_quote test_clock (Inr test_client) test_cache ''nvda'')
       = NotFound ''Could not fetch price for NVDA: timeout''"
proof -
  have ct: "current_timestamp test_clock = ''2024-03-01 12:00:00''"
    by (simp add: test_clock_def)
  note p = get_quote_policy [of test_clock test_cache _ "Inr test_client"]
  have a: "get_quote test_clock (Inr test_client) test_cache ''aapl''
     = \<lparr> response = Cached aapl_row, cache_after = test_cache, fetched = [] \<rparr>"
    using p [of "''aapl''"] by (simp add: upper_examples test_fresh)
  have b: "response (get_quote test_clock (Inr test_client) test_cache ''tsla'')
       = Fetched (make_data ''TSLA'' tsla_quote)
     \<and> cache_after (get_quote test_clock (Inr test_client) test_cache ''tsla'') ''TSLA''
       = Some \<lparr> pc_symbol = ''TSLA'', pc_price = d_price (make_data ''TSLA'' tsla_quote),
               pc_currency = d_currency (make_data ''TSLA'' tsla_quote),
               pc_name = d_name (make_data ''TSLA'' tsla_quote),
               pc_change_percent = d_change_percent (make_data ''TSLA'' tsla_quote),
               pc_updated_at = ''2024-03-01 12:00:00'' \<rparr>"
    using p [of "''tsla''"] ct by (simp add: upper_examples test_fresh test_client_def)
  have c: "response (get_quote test_clock (Inr test_client) test_cache ''msft'') = StaleCached msft_row"
    using p [of "''msft''"] by (simp add: upper_examples test_fresh test_client_def test_lookup)
  have d: "response (get_quote test_clock (Inr test_client) test_cache ''nvda'')
       = NotFound ''Could not fetch price for NVDA: timeout''"
    using p [of "''nvda''"] by (simp add: upper_examples test_fresh test_client_def test_lookup)
  show ?thesis using a b c d by (simp add: tsla_data)
qed


subsection \<open>Batch quotes\<close>

lemma check_cache_strings:
  "\<exists>r tf. check_cache clk cache (map JString sys) (results, toFetch) = Some (r, tf)
     \<and> (\<forall>s. r s =
           (if s \<in> toUpperCase ` set sys \<and> fresh_lookup clk cache s \<noteq> None
            then map_option BCached (fresh_lookup clk cache s) else results s))
     \<and> set tf = set toFetch \<union> {s \<in> toUpperCase ` set sys. fresh_lookup clk cache s = None}"
proof (induction sys arbitrary: results toFetch)
  case Nil
  then show ?case by simp
next
  case (Cons x xs)
  show ?case
  proof (cases "fresh_lookup clk cache (toUpperCase x)")
    case None
    from Cons.IH [of results "toFetch @ [toUpperCase x]"]
    obtain r tf where
      c: "check_cache clk cache (map JString xs) (results, toFetch @ [toUpperCase x]) = Some (r, tf)"
      and r: "\<forall>s. r s =
           (if s \<in> toUpperCase ` set xs \<and> fresh_lookup clk cache s \<noteq> None
            then map_option BCached (fresh_lookup clk cache s) else results s)"
      and tf: "set tf = set (toFetch @ [toUpperCase x])
                 \<union> {s \<in> toUpperCase ` set xs. fresh_lookup clk cache s = None}"
      by (elim exE conjE)
    have "check_cache clk cache (map JString (x # xs)) (results, toFetch) = Some (r, tf)"
      by (simp add: None c)
    moreover have "\<forall>s. r s =
           (if s \<in> toUpperCase ` set (x # xs) \<and> fresh_lookup clk cache s \<noteq> None
            then map_option BCached (fresh_lookup clk cache s) else results s)"
      using r None by auto
    moreover have "set tf = set toFetch
                 \<union> {s \<in> toUpperCase ` set (x # xs). fresh_lookup clk cache s = None}"
      using tf None by auto
    ultimately show ?thesis by (intro exI conjI)
  next
    case (Some e)
    from Cons.IH [of "results(toUpperCase x \<mapsto> BCached e)" toFetch]
    obtain r tf where
      c: "check_cache clk cache (map JString xs) (results(toUpperCase x \<mapsto> BCached e), toFetch)
            = Some (r, tf)"
      and r: "\<forall>s. r s =
           (if s \<in> toUpperCase ` set xs \<and> fresh_lookup clk cache s \<noteq> None
            then map_option BCached (fresh_lookup clk cache s)
            else (results(toUpperCase x \<mapsto> BCached e)) s)"
      and tf: "set tf = set toFetch
                 \<union> {s \<in> toUpperCase ` set xs. fresh_lookup clk cache s = None}"
      by (elim exE conjE)
    have "check_cache clk cache (map JString (x # xs)) (results, toFetch) = Some (r, tf)"
      by (simp add: Some c)
    moreover have "\<forall>s. r s =
           (if s \<in> toUpperCase ` set (x # xs) \<and> fresh_lookup clk cache s \<noteq> None
            then map_option BCached (fresh_lookup clk cache s) else results s)"
      using r Some by auto
    moreover have "set tf = set toFetch
                 \<union> {s \<in> toUpperCase ` set (x # xs). fresh_lookup clk cache s = None}"
      using tf Some by auto
    ultimately show ?thesis by (intro exI conjI)
  qed
qed

lemma check_cache_throws:
  "\<exists>v \<in> set elems. \<forall>str. v \<noteq> JString str \<Longrightarrow> check_cache clk cache elems st = None"
proof (induction elems arbitrary: st)
  case Nil
  then show ?case by simp
next
  case (Cons e es)
  obtain results toFetch where st: "st = (results, toFetch)" by (cases st)
  show ?case
  proof (cases e)
    case (JString str)
    with Cons.prems have "\<exists>v \<in> set es. \<forall>str. v \<noteq> JString str" by auto
    then have "check_cache clk cache es st' = None" for st'
      by (rule Cons.IH)
    then show ?thesis
      by (simp add: st JString Let_def split: option.splits)
  qed (simp_all add: st)
qed

lemma fetched_entry_upsert:
  "client x = Inr q \<Longrightarrow>
   fetched_entry client (upsert_data clk cache (make_data x q)) s = fetched_entry client cache s"
  by (cases "s = x")
    (auto simp: fetched_entry_def upsert_data_def upsert_price_def make_data_def
      stale_or_error_def split: sum.splits)

lemma fetch_loop_results:
  "fst (fetch_loop clk client xs (results, cache, calls)) s =
     (if s \<in> set xs then Some (fetched_entry client cache s) else results s)"
proof (induction xs arbitrary: results cache calls)
  case Nil
  then show ?case by simp
next
  case (Cons x xs)
  show ?case
  proof (cases "client x")
    case (Inl msg)
    have "fst (fetch_loop clk client (x # xs) (results, cache, calls)) s =
          fst (fetch_loop clk client xs
                (results(x \<mapsto> stale_or_error cache x msg), cache, calls @ [x])) s"
      by (simp add: Inl)
    also have "\<dots> = (if s \<in> set xs then Some (fetched_entry client cache s)
                     else (results(x \<mapsto> stale_or_error cache x msg)) s)"
      by (rule Cons.IH)
    finally show ?thesis
      by (simp add: fetched_entry_def Inl)
  next
    case (Inr q)
    have "fst (fetch_loop clk client (x # xs) (results, cache, calls)) s =
          fst (fetch_loop clk client xs
                (results(x \<mapsto> BFetched (make_data x q)),
                 upsert_data clk cache (make_data x q), calls @ [x])) s"
      by (simp add: Inr Let_def)
    also have "\<dots> = (if s \<in> set xs
                     then Some (fetched_entry client (upsert_data clk cache (make_data x q)) s)
                     else (results(x \<mapsto> BFetched (make_data x q))) s)"
      by (rule Cons.IH)
    finally show ?thesis
      using fetched_entry_upsert [of client x q clk cache s, OF Inr]
      by (simp add: fetched_entry_def Inr)
  qed
qed

lemma unavailable_loop_results:
  "unavailable_loop cache xs results s =
     (if s \<in> set xs \<and> results s = None
      then Some (stale_or_error cache s ''Service unavailable'') else results s)"
  by (induction xs arbitrary: results) (auto split: option.splits)

lemma post_quotes_throws:
  assumes "\<exists>v \<in> set elems. \<forall>str. v \<noteq> JString str"
  shows "post_quotes clk yf cache (Some (JArray elems))
           = \<lparr> b_response = Unhandled, b_cache_after = cache, b_fetched = [] \<rparr>"
  by (simp add: post_quotes_def check_cache_throws [OF assms])

text \<open>
  Claim C4, as stated, fails on an array with an element that is not a string: for the body
  \<open>{symbols: ["aapl", 5]}\<close> the handler throws at \<open>sym.toUpperCase()\<close> in the first
  loop and sends no result object at all, not even the entry of the first symbol, which
  has a fresh cache row.
\<close>

theorem post_quotes_non_string_unanswered:
  "b_response (post_quotes test_clock (Inr test_client) test_cache
     (Some (JArray [JString ''aapl'', JNumber 5]))) = Unhandled"
  by (simp add: post_quotes_def Let_def upper_examples test_fresh)


text \<open>
  Claim C4, amended. For every list of requested symbols that are all strings, the
  batch-quote operation answers with a result object that has exactly one entry per
  requested (upper-cased) symbol. The entry of a symbol is what the lookup of that symbol
  alone gives: it is determined by the symbol's own cache row and the provider's answer for
  that symbol, so whether other symbols fail does not change it. A symbol whose fetch fails
  gets its cache row of any age tagged stale, or an error entry when it has no cache row.
\<close>

theorem post_quotes_isolated:
  "\<exists>results.
     b_response (post_quotes clk yf cache (Some (JArray (map JString symbols)))) = Quotes results
     \<and> dom results = toUpperCase ` set symbols
     \<and> (\<forall>s \<in> toUpperCase ` set symbols. results s = Some (isolated_entry clk yf cache s)
           \<and> (\<forall>client client'. yf = Inr client \<and> client' s = client s \<longrightarrow>
                 isolated_entry clk (Inr client') cache s = isolated_entry clk yf cache s)
           \<and> (\<forall>client msg. fresh_lookup clk cache s = None \<and> yf = Inr client
                 \<and> client s = Inl msg \<longrightarrow>
                 results s = Some (case cache s of Some e \<Rightarrow> BStale e
                                   | None \<Rightarrow> BError s 0 msg)))"
proof -
  from check_cache_strings [of clk cache symbols Map.empty "[]"]
  obtain r0 tf where
    cc: "check_cache clk cache (map JString symbols) (Map.empty, []) = Some (r0, tf)"
    and r0': "\<forall>s. r0 s =
           (if s \<in> toUpperCase ` set symbols \<and> fresh_lookup clk cache s \<noteq> None
            then map_option BCached (fresh_lookup clk cache s) else Map.empty s)"
    and tf': "set tf = set []
                 \<union> {s \<in> toUpperCase ` set symbols. fresh_lookup clk cache s = None}"
    by (elim exE conjE)
  have r0: "r0 s = (if s \<in> toUpperCase ` set symbols \<and> fresh_lookup clk cache s \<noteq> None
      then map_option BCached (fresh_lookup clk cache s) else None)" for s
    using r0' by simp
  have tf: "set tf = {s \<in> toUpperCase ` set symbols. fresh_lookup clk cache s = None}"
    using tf' by simp
  define res where "res =
     (if tf = [] then r0
      else case yf of Inr client \<Rightarrow> fst (fetch_loop clk client tf (r0, cache, []))
                    | Inl msg \<Rightarrow> unavailable_loop cache tf r0)"
  have resp: "b_response (post_quotes clk yf cache (Some (JArray (map JString symbols))))
                = Quotes res"
    by (simp add: post_quotes_def cc res_def split: sum.splits prod.splits)
  have entry: "res s = (if s \<in> toUpperCase ` set symbols
                        then Some (isolated_entry clk yf cache s) else None)" for s
  proof (cases "tf = []")
    case True
    with tf have "\<forall>s \<in> toUpperCase ` set symbols. fresh_lookup clk cache s \<noteq> None"
      by auto
    then show ?thesis
      using True by (auto simp: res_def r0 isolated_entry_def)
  next
    case False
    show ?thesis
    proof (cases yf)
      case (Inl msg)
      then have "res s = unavailable_loop cache tf r0 s"
        using False by (simp add: res_def)
      then show ?thesis
        using Inl by (auto simp: unavailable_loop_results tf r0 isolated_entry_def)
    next
      case (Inr client)
      then have "res s = fst (fetch_loop clk client tf (r0, cache, [])) s"
        using False by (simp add: res_def)
      then show ?thesis
        using Inr
        by (auto simp: fetch_loop_results tf r0 isolated_entry_def fetched_entry_def
            split: sum.splits)
    qed
  qed
  have dom: "dom res = toUpperCase ` set symbols"
    by (auto simp: entry dom_def)
  have loc: "isolated_entry clk (Inr client') cache s = isolated_entry clk yf cache s"
    if "yf = Inr client" "client' s = client s" for client client' s
    using that by (simp add: isolated_entry_def split: option.splits)
  have fail: "res s = Some (case cache s of Some e \<Rightarrow> BStale e | None \<Rightarrow> BError s 0 msg)"
    if "s \<in> toUpperCase ` set symbols" "fresh_lookup clk cache s = None" "yf = Inr client"
      "client s = Inl msg" for client msg s
    using that by (simp add: entry isolated_entry_def stale_or_error_def)
  have each: "res s = Some (isolated_entry clk yf cache s)
      \<and> (\<forall>client client'. yf = Inr client \<and> client' s = client s \<longrightarrow>
            isolated_entry clk (Inr client') cache s = isolated_entry clk yf cache s)
      \<and> (\<forall>client msg. fresh_lookup clk cache s = None \<and> yf = Inr client
            \<and> client s = Inl msg \<longrightarrow>
            res s = Some (case cache s of Some e \<Rightarrow> BStale e | None \<Rightarrow> BError s 0 msg))"
    if mem: "s \<in> toUpperCase ` set symbols" for s
  proof (intro conjI allI impI)
    show "res s = Some (isolated_entry clk yf cache s)"
      using mem by (simp add: entry)
  next
    fix client client'
    assume "yf = Inr client \<and> client' s = client s"
    then show "isolated_entry clk (Inr client') cache s = isolated_entry clk yf cache s"
      by (simp add: loc [of client client' s])
  next
    fix client msg
    assume "fresh_lookup clk cache s = None \<and> yf = Inr client \<and> client s = Inl msg"
    then show "res s = Some (case cache s of Some e \<Rightarrow> BStale e | None \<Rightarrow> BError s 0 msg)"
      by (simp add: fail [OF mem, of client msg])
  qed
  show ?thesis
  proof (intro exI [of _ res] conjI ballI)
    show "b_response (post_quotes clk yf cache (Some (JArray (map JString symbols))))
            = Quotes res" by (rule resp)
    show "dom res = toUpperCase ` set symbols" by (rule dom)
  qed (use each in blast)+
qed

theorem post_quotes_isolated_witness:
  "\<exists>results.
     b_response (post_quotes test_clock (Inr test_client) test_cache
       (Some (JArray [JString ''aapl'', JString ''nvda'', JString ''tsla'', JString ''msft''])))
       = Quotes results
     \<and> dom results = {''AAPL'', ''NVDA'', ''TSLA'', ''MSFT''}
     \<and> results ''AAPL'' = Some (BCached aapl_row)
     \<and> results ''NVDA'' = Some (BError ''NVDA'' 0 ''timeout'')
     \<and> results ''TSLA'' = Some (BFetched (make_data ''TSLA'' tsla_quote))
     \<and> results ''MSFT'' = Some (BStale msft_row)"
proof -
  let ?xs = "[''aapl'', ''nvda'', ''tsla'', ''msft'']"
  let ?iso = "isolated_entry test_clock (Inr test_client) test_cache"
  have U: "toUpperCase ` set ?xs = {''AAPL'', ''NVDA'', ''TSLA'', ''MSFT''}"
    by (simp add: upper_examples)
  from post_quotes_isolated [of test_clock "Inr test_client" test_cache ?xs]
  obtain results where
    all: "b_response (post_quotes test_clock (Inr test_client) test_cache
              (Some (JArray (map JString ?xs)))) = Quotes results
          \<and> dom results = toUpperCase ` set ?xs
          \<and> (\<forall>s \<in> toUpperCase ` set ?xs. results s = Some (?iso s)
           \<and> (\<forall>client client'. (Inr test_client :: provider) = Inr client \<and> client' s = client s \<longrightarrow>
                 isolated_entry test_clock (Inr client') test_cache s = ?iso s)
           \<and> (\<forall>client msg. fresh_lookup test_clock test_cache s = None
                 \<and> (Inr test_client :: provider) = Inr client \<and> client s = Inl msg \<longrightarrow>
                 results s = Some (case test_cache s of Some e \<Rightarrow> BStale e
                                   | None \<Rightarrow> BError s 0 msg)))" ..
  have "b_response (post_quotes test_clock (Inr test_client) test_cache
              (Some (JArray (map JString ?xs)))) = Quotes results"
    using all by (rule conjunct1)
  then have r: "b_response (post_quotes test_clock (Inr test_client) test_cache
       (Some (JArray [JString ''aapl'', JString ''nvda'', JString ''tsla'', JString ''msft''])))
       = Quotes results"
    by simp
  have d: "dom results = {''AAPL'', ''NVDA'', ''TSLA'', ''MSFT''}"
    using all [THEN conjunct2, THEN conjunct1] U by (rule trans)
  have e: "results s = Some (?iso s)" if "s \<in> {''AAPL'', ''NVDA'', ''TSLA'', ''MSFT''}" for s
    using bspec [OF all [THEN conjunct2, THEN conjunct2] that [folded U]]
    by (rule conjunct1)
  have i: "?iso ''AAPL'' = BCached aapl_row"
    "?iso ''NVDA'' = BError ''NVDA'' 0 ''timeout''"
    "?iso ''TSLA'' = BFetched (make_data ''TSLA'' tsla_quote)"
    "?iso ''MSFT'' = BStale msft_row"
    by (simp_all add: isolated_entry_def test_fresh test_client_def stale_or_error_def
        test_lookup)
  have "results ''AAPL'' = Some (BCached aapl_row)"
    using e [of "''AAPL''"] by (simp add: i)
  moreover have "results ''NVDA'' = Some (BError ''NVDA'' 0 ''timeout'')"
    using e [of "''NVDA''"] by (simp add: i)
  moreover have "results ''TSLA'' = Some (BFetched (make_data ''TSLA'' tsla_quote))"
    using e [of "''TSLA''"] by (simp add: i)
  moreover have "results ''MSFT'' = Some (BStale msft_row)"
    using e [of "''MSFT''"] by (simp add: i)
  ultimately show ?thesis
    using r d by (intro exI [of _ results] conjI)
qed


subsection \<open>Dashboard summary: totals\<close>

lemma add_to_account_market_value:
  "sum_list (map market_value (add_to_account a n mv cb ss)) = sum_list (map market_value ss) + mv"
  by (induction ss) auto

lemma add_to_account_cost_basis:
  "sum_list (map cost_basis (add_to_account a n mv cb ss)) = sum_list (map cost_basis ss) + cb"
  by (induction ss) auto

lemma totals_loop_sums:
  "totals_loop rates base prices hs (ss, w, c) = (ss', w', c') \<Longrightarrow>
     w' = w + sum_list (map (marketValue rates base prices) hs)
   \<and> c' = c + sum_list (map (costBasis rates base) hs)
   \<and> sum_list (map market_value ss') =
       sum_list (map market_value ss) + sum_list (map (marketValue rates base prices) hs)
   \<and> sum_list (map cost_basis ss') =
       sum_list (map cost_basis ss) + sum_list (map (costBasis rates base) hs)"
proof (induction hs arbitrary: ss w c)
  case Nil
  then show ?case by simp
next
  case (Cons h hs)
  from Cons.prems have
    "totals_loop rates base prices hs
       (add_to_account (h_account_id h) (h_account_name h) (marketValue rates base prices h)
          (costBasis rates base h) ss,
        w + marketValue rates base prices h, c + costBasis rates base h) = (ss', w', c')"
    by (simp add: Let_def)
  from Cons.IH [OF this] show ?case
    by (simp add: add_to_account_market_value add_to_account_cost_basis)
qed

lemma make_summary_totals:
  "total_wealth (make_summary rates base prices hs) = sum_list (map (marketValue rates base prices) hs)"
  "total_cost (make_summary rates base prices hs) = sum_list (map (costBasis rates base) hs)"
  "sum_list (map market_value (accounts (make_summary rates base prices hs)))
     = sum_list (map (marketValue rates base prices) hs)"
  "sum_list (map cost_basis (accounts (make_summary rates base prices hs)))
     = sum_list (map (costBasis rates base) hs)"
proof -
  obtain ss w c where t: "totals_loop rates base prices hs ([], 0, 0) = (ss, w, c)"
    by (cases "totals_loop rates base prices hs ([], 0, 0)")
  from totals_loop_sums [OF t]
  show "total_wealth (make_summary rates base prices hs) = sum_list (map (marketValue rates base prices) hs)"
  "total_cost (make_summary rates base prices hs) = sum_list (map (costBasis rates base) hs)"
  "sum_list (map market_value (accounts (make_summary rates base prices hs)))
     = sum_list (map (marketValue rates base prices) hs)"
  "sum_list (map cost_basis (accounts (make_summary rates base prices hs)))
     = sum_list (map (costBasis rates base) hs)"
    by (simp_all add: make_summary_def t)
qed

lemma make_summary_gain:
  "total_gain (make_summary rates base prices hs) =
     total_wealth (make_summary rates base prices hs) - total_cost (make_summary rates base prices hs)"
  "total_gain_percent (make_summary rates base prices hs) =
     Some (if 0 < total_cost (make_summary rates base prices hs)
           then (total_wealth (make_summary rates base prices hs)
                 - total_cost (make_summary rates base prices hs))
                / total_cost (make_summary rates base prices hs) * 100
           else 0)"
  by (simp_all add: make_summary_def js_div_def split: prod.splits)

text \<open>
  Claim C2. For every list of holdings, price map and rate map, the summary has
  total_gain = total_wealth - total_cost; total_gain_percent is
  (total_wealth - total_cost) / total_cost * 100 when total_cost is positive and 0 when
  total_cost is 0; the percentage is always a finite number (the division is only
  evaluated with a positive divisor); and the per-account market values and cost bases
  sum to total_wealth and total_cost.
\<close>

theorem summary_totals:
  "total_gain (make_summary rates base prices hs) =
     total_wealth (make_summary rates base prices hs) - total_cost (make_summary rates base prices hs)
   \<and> (0 < total_cost (make_summary rates base prices hs) \<longrightarrow>
        total_gain_percent (make_summary rates base prices hs) =
          Some ((total_wealth (make_summary rates base prices hs)
                 - total_cost (make_summary rates base prices hs))
                / total_cost (make_summary rates base prices hs) * 100))
   \<and> (total_cost (make_summary rates base prices hs) = 0 \<longrightarrow>
        total_gain_percent (make_summary rates base prices hs) = Some 0)
   \<and> total_gain_percent (make_summary rates base prices hs) \<noteq> None
   \<and> sum_list (map market_value (accounts (make_summary rates base prices hs)))
       = total_wealth (make_summary rates base prices hs)
   \<and> sum_list (map cost_basis (accounts (make_summary rates base prices hs)))
       = total_cost (make_summary rates base prices hs)"
  by (simp add: make_summary_gain make_summary_totals)

theorem summary_totals_witness:
  "total_wealth (make_summary (build_rates test_rates) ''EUR'' test_cache [aapl_holding]) = 1840
   \<and> total_cost (make_summary (build_rates test_rates) ''EUR'' test_cache [aapl_holding]) = 1500
   \<and> total_gain (make_summary (build_rates test_rates) ''EUR'' test_cache [aapl_holding]) = 340
   \<and> total_gain_percent (make_summary (build_rates test_rates) ''EUR'' test_cache [aapl_holding])
       = Some (68 / 3)
   \<and> total_gain_percent (make_summary (build_rates test_rates) ''EUR'' test_cache []) = Some 0"
proof -
  let ?S = "make_summary (build_rates test_rates) ''EUR'' test_cache [aapl_holding]"
  let ?E = "make_summary (build_rates test_rates) ''EUR'' test_cache []"
  have w: "total_wealth ?S = 1840" and c: "total_cost ?S = 1500"
    by (simp_all add: make_summary_totals aapl_values)
  have e: "total_cost ?E = 0"
    by (simp add: make_summary_totals)
  show ?thesis
    using summary_totals [of "build_rates test_rates" "''EUR''" test_cache "[aapl_holding]"]
      summary_totals [of "build_rates test_rates" "''EUR''" test_cache "[]"]
    by (simp add: w c e)
qed


subsection \<open>Dashboard summary: the price loop\<close>

lemma distinct_unique: "distinct (unique xs)"
  by (induction xs) auto

lemma set_unique: "set (unique xs) = set xs"
  by (induction xs) auto

lemma price_for_cong:
  "cache' s = cache s \<Longrightarrow> price_for clk client cache' s = price_for clk client cache s"
  by (simp add: price_for_def fresh_lookup_def split: option.splits sum.splits)

lemma fetch_prices_step:
  "\<exists>v cache1 calls1.
     fetch_prices clk client (x # xs) (prices, cache, calls) =
       fetch_prices clk client xs (prices(x \<mapsto> v), cache1, calls1)
     \<and> v = price_for clk client cache x
     \<and> cache1 x = row_after clk client cache x
     \<and> (\<forall>s. s \<noteq> x \<longrightarrow> cache1 s = cache s)"
proof (cases "fresh_lookup clk cache x")
  case (Some cached)
  then show ?thesis
    by (intro exI [of _ cached] exI [of _ cache] exI [of _ calls]) (simp add: price_for_def row_after_def)
next
  case None
  show ?thesis
  proof (cases "client x")
    case (Inl msg)
    then show ?thesis
      using None
      by (intro exI [of _ "case cache x of Some stale \<Rightarrow> stale | None \<Rightarrow> synthesized x"]
          exI [of _ cache] exI [of _ "calls @ [x]"])
        (simp add: price_for_def row_after_def)
  next
    case (Inr q)
    then show ?thesis
      using None
      by (intro exI [of _ "fetched_price clk x q"]
          exI [of _ "upsert_price clk cache x (pc_price (fetched_price clk x q))
                       (pc_currency (fetched_price clk x q)) (pc_name (fetched_price clk x q))
                       (pc_change_percent (fetched_price clk x q))"]
          exI [of _ "calls @ [x]"])
        (simp add: price_for_def row_after_def Let_def upsert_price_def fetched_price_def)
  qed
qed

lemma fetch_prices_other:
  "s \<notin> set sys \<Longrightarrow> fst (fetch_prices clk client sys (prices, cache, calls)) s = prices s"
proof (induction sys arbitrary: prices cache calls)
  case Nil
  then show ?case by simp
next
  case (Cons x xs)
  obtain v cache1 calls1 where
    step: "fetch_prices clk client (x # xs) (prices, cache, calls) =
             fetch_prices clk client xs (prices(x \<mapsto> v), cache1, calls1)"
    using fetch_prices_step [of clk client x xs prices cache calls] by blast
  from Cons.prems have sx: "s \<notin> set xs" "s \<noteq> x" by auto
  have "fst (fetch_prices clk client xs (prices(x \<mapsto> v), cache1, calls1)) s
          = (prices(x \<mapsto> v)) s"
    using sx(1) by (rule Cons.IH)
  then show ?case
    unfolding step using sx(2) by simp
qed

lemma fetch_prices_result:
  "distinct sys \<Longrightarrow> s \<in> set sys \<Longrightarrow>
   fst (fetch_prices clk client sys (prices, cache, calls)) s = Some (price_for clk client cache s)"
proof (induction sys arbitrary: prices cache calls)
  case Nil
  then show ?case by simp
next
  case (Cons x xs)
  obtain v cache1 calls1 where
    step: "fetch_prices clk client (x # xs) (prices, cache, calls) =
             fetch_prices clk client xs (prices(x \<mapsto> v), cache1, calls1)"
    and v: "v = price_for clk client cache x"
    and c1: "\<forall>s. s \<noteq> x \<longrightarrow> cache1 s = cache s"
    using fetch_prices_step [of clk client x xs prices cache calls] by (elim exE conjE)
  show ?case
  proof (cases "s = x")
    case True
    with Cons.prems have "x \<notin> set xs" by simp
    then have "fst (fetch_prices clk client xs (prices(x \<mapsto> v), cache1, calls1)) x
                 = (prices(x \<mapsto> v)) x"
      by (rule fetch_prices_other)
    then show ?thesis
      unfolding step True v by simp
  next
    case False
    with Cons.prems have "distinct xs" "s \<in> set xs" by auto
    then have "fst (fetch_prices clk client xs (prices(x \<mapsto> v), cache1, calls1)) s
                 = Some (price_for clk client cache1 s)"
      by (rule Cons.IH)
    moreover have "price_for clk client cache1 s = price_for clk client cache s"
      using False c1 by (intro price_for_cong) simp
    ultimately show ?thesis
      unfolding step by simp
  qed
qed


lemma row_after_cong:
  "cache' s = cache s \<Longrightarrow> row_after clk client cache' s = row_after clk client cache s"
  by (simp add: row_after_def fresh_lookup_def split: option.splits sum.splits)

lemma fetch_prices_cache_other:
  "s \<notin> set sys \<Longrightarrow>
   fst (snd (fetch_prices clk client sys (prices, cache, calls))) s = cache s"
proof (induction sys arbitrary: prices cache calls)
  case Nil
  then show ?case by simp
next
  case (Cons x xs)
  obtain v cache1 calls1 where
    step: "fetch_prices clk client (x # xs) (prices, cache, calls) =
             fetch_prices clk client xs (prices(x \<mapsto> v), cache1, calls1)"
    and c1: "\<forall>s. s \<noteq> x \<longrightarrow> cache1 s = cache s"
    using fetch_prices_step [of clk client x xs prices cache calls] by (elim exE conjE)
  from Cons.prems have sx: "s \<notin> set xs" "s \<noteq> x" by auto
  have "fst (snd (fetch_prices clk client xs (prices(x \<mapsto> v), cache1, calls1))) s = cache1 s"
    using sx(1) by (rule Cons.IH)
  then show ?case
    unfolding step using sx(2) c1 by simp
qed

lemma fetch_prices_cache:
  "distinct sys \<Longrightarrow> s \<in> set sys \<Longrightarrow>
   fst (snd (fetch_prices clk client sys (prices, cache, calls))) s = row_after clk client cache s"
proof (induction sys arbitrary: prices cache calls)
  case Nil
  then show ?case by simp
next
  case (Cons x xs)
  obtain v cache1 calls1 where
    step: "fetch_prices clk client (x # xs) (prices, cache, calls) =
             fetch_prices clk client xs (prices(x \<mapsto> v), cache1, calls1)"
    and cx: "cache1 x = row_after clk client cache x"
    and c1: "\<forall>s. s \<noteq> x \<longrightarrow> cache1 s = cache s"
    using fetch_prices_step [of clk client x xs prices cache calls] by (elim exE conjE)
  show ?case
  proof (cases "s = x")
    case True
    with Cons.prems have "x \<notin> set xs" by simp
    then have "fst (snd (fetch_prices clk client xs (prices(x \<mapsto> v), cache1, calls1))) x
                 = cache1 x"
      by (rule fetch_prices_cache_other)
    then show ?thesis
      unfolding step True cx by simp
  next
    case False
    with Cons.prems have "distinct xs" "s \<in> set xs" by auto
    then have "fst (snd (fetch_prices clk client xs (prices(x \<mapsto> v), cache1, calls1))) s
                 = row_after clk client cache1 s"
      by (rule Cons.IH)
    moreover have "row_after clk client cache1 s = row_after clk client cache s"
      using False c1 by (intro row_after_cong) simp
    ultimately show ?thesis
      unfolding step by simp
  qed
qed

lemma dashboard_summary_ok:
  assumes "yf = Inr client"
  shows "dashboard_summary bare clk yf accts txs cache rateRows usr =
     (let holdings = holdings_query bare accts txs;
          st = fetch_prices clk client (unique (map h_symbol holdings)) (Map.empty, cache, [])
      in \<lparr> sum_response =
             Summary (make_summary (build_rates rateRows) (base_of usr) (fst st) holdings),
           sum_cache_after = fst (snd st), sum_fetched = snd (snd st) \<rparr>)"
  using assms
  by (cases "unique (map h_symbol (holdings_query bare accts txs)) = []")
    (simp_all add: dashboard_summary_def Let_def split: prod.splits)

lemma marketValue_synthesized:
  "prices (h_symbol h) = Some (synthesized (h_symbol h)) \<Longrightarrow> marketValue rates base prices h = 0"
  by (simp add: marketValue_def price_data_def synthesized_def Let_def)

subsection \<open>The summary and a missing price\<close>

text \<open>
  Once the provider client is obtained, the route answers with a summary whatever the
  per-symbol fetches do, computed from the prices the price loop leaves. For a holding
  whose symbol's fetch fails and whose symbol has no cache row, that price is the
  synthesized one (price 0, currency USD), so the holding's market value is 0, while
  total_cost is the sum of the cost bases of all holdings, this one included.
\<close>

lemma summary_with_client:
  assumes yf: "yf = Inr client"
  shows "sum_response (dashboard_summary bare clk yf accts txs cache rateRows usr) =
       Summary (make_summary (build_rates rateRows) (base_of usr)
         (fst (fetch_prices clk client (unique (map h_symbol (holdings_query bare accts txs)))
                 (Map.empty, cache, [])))
         (holdings_query bare accts txs))
     \<and> total_wealth (make_summary (build_rates rateRows) (base_of usr)
         (fst (fetch_prices clk client (unique (map h_symbol (holdings_query bare accts txs)))
                 (Map.empty, cache, [])))
         (holdings_query bare accts txs)) =
         sum_list (map (marketValue (build_rates rateRows) (base_of usr)
              (fst (fetch_prices clk client
                      (unique (map h_symbol (holdings_query bare accts txs)))
                      (Map.empty, cache, []))))
            (holdings_query bare accts txs))
     \<and> total_cost (make_summary (build_rates rateRows) (base_of usr)
         (fst (fetch_prices clk client (unique (map h_symbol (holdings_query bare accts txs)))
                 (Map.empty, cache, [])))
         (holdings_query bare accts txs)) =
         sum_list (map (costBasis (build_rates rateRows) (base_of usr))
                     (holdings_query bare accts txs))
     \<and> (\<forall>h \<in> set (holdings_query bare accts txs).
           (\<exists>msg. client (h_symbol h) = Inl msg) \<and> cache (h_symbol h) = None \<longrightarrow>
           fst (fetch_prices clk client (unique (map h_symbol (holdings_query bare accts txs)))
                  (Map.empty, cache, [])) (h_symbol h) = Some (synthesized (h_symbol h))
           \<and> pc_price (synthesized (h_symbol h)) = 0
           \<and> pc_currency (synthesized (h_symbol h)) = ''USD''
           \<and> marketValue (build_rates rateRows) (base_of usr)
               (fst (fetch_prices clk client
                       (unique (map h_symbol (holdings_query bare accts txs)))
                       (Map.empty, cache, []))) h = 0)"
proof -
  let ?H = "holdings_query bare accts txs"
  let ?st = "fetch_prices clk client (unique (map h_symbol ?H)) (Map.empty, cache, [])"
  let ?S = "make_summary (build_rates rateRows) (base_of usr) (fst ?st) ?H"
  have resp: "sum_response (dashboard_summary bare clk yf accts txs cache rateRows usr) = Summary ?S"
    by (simp add: dashboard_summary_ok [OF yf] Let_def)
  have syn: "fst ?st (h_symbol h) = Some (synthesized (h_symbol h))"
    if h: "h \<in> set ?H" and f: "client (h_symbol h) = Inl msg" and c: "cache (h_symbol h) = None"
    for h msg
  proof -
    have "h_symbol h \<in> set (unique (map h_symbol ?H))"
      using h by (simp add: set_unique)
    then have "fst ?st (h_symbol h) = Some (price_for clk client cache (h_symbol h))"
      by (intro fetch_prices_result distinct_unique)
    then show ?thesis
      using f c by (simp add: price_for_def fresh_lookup_def)
  qed
  have each: "fst ?st (h_symbol h) = Some (synthesized (h_symbol h))
           \<and> pc_price (synthesized (h_symbol h)) = 0
           \<and> pc_currency (synthesized (h_symbol h)) = ''USD''
           \<and> marketValue (build_rates rateRows) (base_of usr) (fst ?st) h = 0"
    if "h \<in> set ?H" "(\<exists>msg. client (h_symbol h) = Inl msg) \<and> cache (h_symbol h) = None" for h
  proof -
    from that obtain msg where "client (h_symbol h) = Inl msg" "cache (h_symbol h) = None"
      by (elim conjE exE)
    with that(1) have "fst ?st (h_symbol h) = Some (synthesized (h_symbol h))"
      by (rule syn)
    then show ?thesis
      by (simp add: marketValue_synthesized) (simp add: synthesized_def)
  qed
  show ?thesis
  proof (intro conjI ballI impI)
    show "sum_response (dashboard_summary bare clk yf accts txs cache rateRows usr) = Summary ?S"
      by (rule resp)
  qed (simp_all add: make_summary_totals each)
qed

lemma summary_with_client_example:
  "\<exists>S. sum_response (dashboard_summary last test_clock (Inr test_client) test_accounts
            nvda_ledger test_cache test_rates eur_user) = Summary S
       \<and> total_wealth S = 0 \<and> total_cost S = 1500"
proof -
  let ?R = "build_rates test_rates"
  let ?P = "fst (fetch_prices test_clock test_client (unique (map h_symbol [nvda_holding]))
                   (Map.empty, test_cache, []))"
  let ?S = "make_summary ?R (base_of eur_user) ?P [nvda_holding]"
  note inst = summary_with_client [OF refl, where client = test_client and bare = last
      and clk = test_clock and accts = test_accounts and txs = nvda_ledger
      and cache = test_cache and rateRows = test_rates and usr = eur_user,
      unfolded nvda_holdings]
  have r: "sum_response (dashboard_summary last test_clock (Inr test_client) test_accounts
            nvda_ledger test_cache test_rates eur_user) = Summary ?S"
    using inst by (rule conjunct1)
  have w: "total_wealth ?S = sum_list (map (marketValue ?R (base_of eur_user) ?P) [nvda_holding])"
    using inst [THEN conjunct2] by (rule conjunct1)
  have c: "total_cost ?S = sum_list (map (costBasis ?R (base_of eur_user)) [nvda_holding])"
    using inst [THEN conjunct2, THEN conjunct2] by (rule conjunct1)
  have m: "\<forall>h \<in> set [nvda_holding].
           (\<exists>msg. test_client (h_symbol h) = Inl msg) \<and> test_cache (h_symbol h) = None \<longrightarrow>
           ?P (h_symbol h) = Some (synthesized (h_symbol h))
           \<and> pc_price (synthesized (h_symbol h)) = 0
           \<and> pc_currency (synthesized (h_symbol h)) = ''USD''
           \<and> marketValue ?R (base_of eur_user) ?P h = 0"
    using inst [THEN conjunct2, THEN conjunct2] by (rule conjunct2)
  have "marketValue ?R (base_of eur_user) ?P nvda_holding = 0"
    using m by (simp add: nvda_holding_def test_client_def test_lookup)
  moreover have "costBasis ?R (base_of eur_user) nvda_holding = 1500"
    by (simp add: costBasis_def nvda_holding_def eur_user_def base_of_def or_num_def)
  ultimately show ?thesis
    using r w c by (intro exI [of _ ?S]) simp
qed

text \<open>
  Claim C10 fails on the code when the provider client itself cannot be obtained. The
  summary awaits \<open>getYahooFinance()\<close> outside the \<open>try\<close> of the price loop, so when that
  call throws and there is at least one holding, the route answers 500 with the message,
  whatever the cache holds: no price is synthesized and no summary is returned. The quote
  routes take the same failure as the fetch of the symbol failing and fall back to the
  cache row or an error entry.
\<close>

theorem summary_fails_without_provider:
  assumes "holdings_query bare accts txs \<noteq> []"
  shows "dashboard_summary bare clk (Inl msg) accts txs cache rateRows usr =
           \<lparr> sum_response = ServerError msg, sum_cache_after = cache, sum_fetched = [] \<rparr>"
proof -
  obtain h hs where "holdings_query bare accts txs = h # hs"
    using assms by (cases "holdings_query bare accts txs") simp_all
  then show ?thesis
    by (simp add: dashboard_summary_def Let_def)
qed

theorem summary_fails_without_provider_witness:
  "holdings_query last test_accounts nvda_ledger \<noteq> []
   \<and> test_cache ''NVDA'' = None
   \<and> sum_response (dashboard_summary last test_clock (Inl ''import failed'') test_accounts
        nvda_ledger test_cache test_rates eur_user) = ServerError ''import failed''
   \<and> get_quote test_clock (Inl ''import failed'') test_cache ''NVDA'' =
       \<lparr> response = NotFound ''Could not fetch price for NVDA: import failed'',
         cache_after = test_cache, fetched = [] \<rparr>"
proof -
  have ne: "holdings_query last test_accounts nvda_ledger \<noteq> []"
    by (simp add: nvda_holdings)
  have "sum_response (dashboard_summary last test_clock (Inl ''import failed'') test_accounts
        nvda_ledger test_cache test_rates eur_user) = ServerError ''import failed''"
    by (simp add: summary_fails_without_provider [OF ne])
  moreover have "get_quote test_clock (Inl ''import failed'') test_cache ''NVDA'' =
       \<lparr> response = NotFound ''Could not fetch price for NVDA: import failed'',
         cache_after = test_cache, fetched = [] \<rparr>"
    by (simp add: get_quote_def quote_failed_def test_fresh test_lookup toUpperCase_def
        upper_char_def)
  ultimately show ?thesis
    using ne by (simp add: test_lookup)
qed


subsection \<open>Daily wealth snapshot\<close>

lemma add_to_details_sums:
  "sum_list (map ad_market_value (add_to_details a n mv cb ds)) = sum_list (map ad_market_value ds) + mv"
  "sum_list (map ad_cost_basis (add_to_details a n mv cb ds)) = sum_list (map ad_cost_basis ds) + cb"
  by (induction ds) auto

lemma snapshot_loop_sums:
  "snapshot_loop rates base prices hs (ds, w, c) = (ds', w', c') \<Longrightarrow>
     w' = w + sum_list (map (marketValue rates base prices) hs)
   \<and> c' = c + sum_list (map (costBasis rates base) hs)"
proof (induction hs arbitrary: ds w c)
  case Nil
  then show ?case by simp
next
  case (Cons h hs)
  from Cons.prems have
    "snapshot_loop rates base prices hs
       (add_to_details (h_account_id h) (h_account_name h) (marketValue rates base prices h)
          (costBasis rates base h) ds,
        w + marketValue rates base prices h, c + costBasis rates base h) = (ds', w', c')"
    by (simp add: Let_def)
  from Cons.IH [OF this] show ?case
    by simp
qed

lemma post_daily_wealth_totals:
  "sr_total_wealth (fst (post_daily_wealth bare clk accts txs cache rateRows usr table)) =
     sum_list (map (marketValue (build_rates rateRows) (base_of usr)
                      (cached_prices cache (unique (map h_symbol (holdings_query bare accts txs)))))
                 (holdings_query bare accts txs))"
  "sr_total_cost (fst (post_daily_wealth bare clk accts txs cache rateRows usr table)) =
     sum_list (map (costBasis (build_rates rateRows) (base_of usr)) (holdings_query bare accts txs))"
proof -
  let ?H = "holdings_query bare accts txs"
  let ?P = "cached_prices cache (unique (map h_symbol ?H))"
  obtain ds w c where
    l: "snapshot_loop (build_rates rateRows) (base_of usr) ?P ?H ([], 0, 0) = (ds, w, c)"
    by (cases "snapshot_loop (build_rates rateRows) (base_of usr) ?P ?H ([], 0, 0)")
  from snapshot_loop_sums [OF l]
  show "sr_total_wealth (fst (post_daily_wealth bare clk accts txs cache rateRows usr table)) =
     sum_list (map (marketValue (build_rates rateRows) (base_of usr) ?P) ?H)"
    "sr_total_cost (fst (post_daily_wealth bare clk accts txs cache rateRows usr table)) =
     sum_list (map (costBasis (build_rates rateRows) (base_of usr)) ?H)"
    by (simp_all add: post_daily_wealth_def Let_def l)
qed

lemma cached_prices_fold:
  "fold (\<lambda>sy prices. case cache sy of Some cached \<Rightarrow> prices(sy \<mapsto> cached) | None \<Rightarrow> prices)
     sys m s = (if s \<in> set sys then cache s else m s)"
  if "\<forall>x \<in> set sys. m x = None \<or> m x = cache x"
  using that
proof (induction sys arbitrary: m)
  case Nil
  then show ?case by simp
next
  case (Cons x xs)
  let ?m' = "case cache x of Some cached \<Rightarrow> m(x \<mapsto> cached) | None \<Rightarrow> m"
  have inv: "\<forall>y \<in> set xs. ?m' y = None \<or> ?m' y = cache y"
    using Cons.prems by (auto split: option.splits)
  have mx: "?m' x = cache x"
    using Cons.prems by (auto split: option.splits)
  have mo: "s \<noteq> x \<Longrightarrow> ?m' s = m s"
    by (auto split: option.splits)
  show ?case
    using Cons.IH [OF inv] mx mo by (cases "s = x") auto
qed

lemma cached_prices_apply:
  "cached_prices cache sys s = (if s \<in> set sys then cache s else None)"
  unfolding cached_prices_def by (rule cached_prices_fold) simp

lemma marketValue_cong:
  "price_data prices (h_symbol h) = price_data prices' (h_symbol h) \<Longrightarrow>
   marketValue rates base prices h = marketValue rates base prices' h"
  by (simp add: marketValue_def)

lemma fresh_lookup_SomeD: "fresh_lookup clk cache s = Some e \<Longrightarrow> cache s = Some e"
  by (auto simp: fresh_lookup_def split: option.splits if_splits)

lemma price_data_after:
  "prices s = Some (price_for clk client cache s) \<Longrightarrow> cp s = row_after clk client cache s \<Longrightarrow>
   price_data cp s = price_data prices s"
  by (auto simp: price_data_def price_for_def row_after_def fetched_price_def synthesized_def
      dest: fresh_lookup_SomeD split: option.splits sum.splits)

lemma price_data_same:
  "prices s = Some (price_for clk client cache s) \<Longrightarrow> cp s = cache s \<Longrightarrow>
   fresh_lookup clk cache s \<noteq> None \<or> (\<exists>msg. client s = Inl msg) \<Longrightarrow>
   price_data cp s = price_data prices s"
  by (auto simp: price_data_def price_for_def synthesized_def
      dest: fresh_lookup_SomeD split: option.splits sum.splits)


lemma summary_prices:
  assumes "sum_response (dashboard_summary bare clk yf accts txs cache rateRows usr) = Summary S"
  shows "\<exists>prices.
     S = make_summary (build_rates rateRows) (base_of usr) prices (holdings_query bare accts txs)
     \<and> (\<forall>h \<in> set (holdings_query bare accts txs).
          \<exists>client. yf = Inr client
            \<and> prices (h_symbol h) = Some (price_for clk client cache (h_symbol h))
            \<and> sum_cache_after (dashboard_summary bare clk yf accts txs cache rateRows usr)
                (h_symbol h) = row_after clk client cache (h_symbol h))"
proof (cases "unique (map h_symbol (holdings_query bare accts txs)) = []")
  case True
  then have "set (map h_symbol (holdings_query bare accts txs)) = {}"
    using set_unique [of "map h_symbol (holdings_query bare accts txs)"] by simp
  then have "holdings_query bare accts txs = []" by simp
  moreover have "S = make_summary (build_rates rateRows) (base_of usr) Map.empty
                    (holdings_query bare accts txs)"
    using assms True by (simp add: dashboard_summary_def Let_def)
  ultimately show ?thesis by auto
next
  case False
  let ?H = "holdings_query bare accts txs"
  from assms False obtain client where yf: "yf = Inr client"
    by (cases yf) (simp_all add: dashboard_summary_def Let_def)
  let ?st = "fetch_prices clk client (unique (map h_symbol ?H)) (Map.empty, cache, [])"
  have d: "dashboard_summary bare clk yf accts txs cache rateRows usr =
      \<lparr> sum_response = Summary (make_summary (build_rates rateRows) (base_of usr) (fst ?st) ?H),
        sum_cache_after = fst (snd ?st), sum_fetched = snd (snd ?st) \<rparr>"
    by (simp add: dashboard_summary_ok [OF yf] Let_def)
  have S: "S = make_summary (build_rates rateRows) (base_of usr) (fst ?st) ?H"
    using assms by (simp add: d)
  have each: "fst ?st (h_symbol h) = Some (price_for clk client cache (h_symbol h))
            \<and> fst (snd ?st) (h_symbol h) = row_after clk client cache (h_symbol h)"
    if "h \<in> set ?H" for h
  proof -
    have m: "h_symbol h \<in> set (unique (map h_symbol ?H))"
      using that by (simp add: set_unique)
    show ?thesis
      using fetch_prices_result [OF distinct_unique m] fetch_prices_cache [OF distinct_unique m]
      by simp
  qed
  show ?thesis
  proof (intro exI [of _ "fst ?st"] conjI ballI)
    show "S = make_summary (build_rates rateRows) (base_of usr) (fst ?st) ?H" by (rule S)
  next
    fix h assume "h \<in> set ?H"
    have ca: "sum_cache_after (dashboard_summary bare clk yf accts txs cache rateRows usr)
                = fst (snd ?st)"
      by (simp add: d)
    from each [OF \<open>h \<in> set ?H\<close>] show "\<exists>client. yf = Inr client
            \<and> fst ?st (h_symbol h) = Some (price_for clk client cache (h_symbol h))
            \<and> sum_cache_after (dashboard_summary bare clk yf accts txs cache rateRows usr)
                (h_symbol h) = row_after clk client cache (h_symbol h)"
      unfolding ca using yf by (intro exI [of _ client]) simp
  qed
qed

lemma sum_list_map_cong:
  "(\<And>x. x \<in> set xs \<Longrightarrow> f x = g x) \<Longrightarrow> sum_list (map f xs) = sum_list (map g xs)"
  by (induction xs) auto

lemma upsert_daily_wealth_one:
  "length (filter (\<lambda>r. dw_date r = dw_date row) (upsert_daily_wealth row table)) = 1"
  "filter (\<lambda>r. dw_date r \<noteq> dw_date row) (upsert_daily_wealth row table)
     = filter (\<lambda>r. dw_date r \<noteq> dw_date row) table"
  by (simp_all add: upsert_daily_wealth_def filter_empty_conv)


lemma post_daily_wealth_row:
  "\<exists>reply row.
     post_daily_wealth bare clk accts txs cache rateRows usr table
       = (reply, upsert_daily_wealth row table)
     \<and> sr_date reply = today clk \<and> dw_date row = today clk
     \<and> dw_total_wealth row = sr_total_wealth reply \<and> dw_total_cost row = sr_total_cost reply"
proof -
  let ?H = "holdings_query bare accts txs"
  obtain ds w c where
    l: "snapshot_loop (build_rates rateRows) (base_of usr)
          (cached_prices cache (unique (map h_symbol ?H))) ?H ([], 0, 0) = (ds, w, c)"
    by (cases "snapshot_loop (build_rates rateRows) (base_of usr)
          (cached_prices cache (unique (map h_symbol ?H))) ?H ([], 0, 0)")
  show ?thesis
    by (intro exI [of _ "\<lparr> sr_date = today clk, sr_total_wealth = w, sr_total_cost = c,
                           sr_base_currency = base_of usr \<rparr>"]
        exI [of _ "\<lparr> dw_date = today clk, dw_total_wealth = w, dw_total_cost = c,
                     dw_base_currency = base_of usr,
                     dw_details = \<lparr> det_accounts = ds, det_holdings_count = length ?H \<rparr>,
                     dw_updated_at = current_timestamp clk \<rparr>"])
      (simp add: post_daily_wealth_def Let_def l)
qed

lemma snapshot_wealth_eq:
  assumes "\<And>h. h \<in> set (holdings_query bare accts txs) \<Longrightarrow>
             price_data (cached_prices cache2 (unique (map h_symbol (holdings_query bare accts txs))))
               (h_symbol h) = price_data prices (h_symbol h)"
  shows "sr_total_wealth (fst (post_daily_wealth bare clk2 accts txs cache2 rateRows usr table))
     = total_wealth (make_summary (build_rates rateRows) (base_of usr) prices
         (holdings_query bare accts txs))"
  unfolding post_daily_wealth_totals make_summary_totals
  by (intro sum_list_map_cong marketValue_cong assms)

lemma tsla_holdings: "holdings_query last test_accounts tsla_ledger = [tsla_holding]"
  by (simp add: holdings_query_def joined_def List.map_filter_def test_accounts_def
      tsla_ledger_def mk_tx_def group_keys_def group_rows_def having_def holding_row_def
      acq_qty_def disp_qty_def acq_cost_def div_nullif_def tsla_holding_def)

lemma tsla_summary:
  "\<exists>S. sum_response (dashboard_summary last test_clock (Inr test_client) test_accounts
            tsla_ledger test_cache test_rates eur_user) = Summary S
       \<and> total_wealth S = 2300 \<and> total_cost S = 1500"
proof -
  let ?st = "fetch_prices test_clock test_client [''TSLA''] (Map.empty, test_cache, [])"
  let ?S = "make_summary (build_rates test_rates) (base_of eur_user) (fst ?st) [tsla_holding]"
  have u: "h_symbol tsla_holding = ''TSLA''"
    by (simp add: tsla_holding_def)
  have r: "sum_response (dashboard_summary last test_clock (Inr test_client) test_accounts
            tsla_ledger test_cache test_rates eur_user) = Summary ?S"
    by (simp add: dashboard_summary_ok [OF refl] tsla_holdings Let_def u
        del: fetch_prices.simps)
  have "fst ?st ''TSLA'' = Some (price_for test_clock test_client test_cache ''TSLA'')"
    by (rule fetch_prices_result) simp_all
  then have p: "fst ?st ''TSLA'' = Some (fetched_price test_clock ''TSLA'' tsla_quote)"
    by (simp add: price_for_def test_fresh test_client_def)
  have mv: "marketValue (build_rates test_rates) (base_of eur_user) P tsla_holding = 2300"
    if "P ''TSLA'' = Some (fetched_price test_clock ''TSLA'' tsla_quote)" for P
    using that
    by (simp add: marketValue_def price_data_def tsla_holding_def fetched_price_def
        tsla_quote_def or_num_def or_str_def eur_user_def base_of_def rate_key_def
        test_rate_lookup Let_def)
  have "marketValue (build_rates test_rates) (base_of eur_user) (fst ?st) tsla_holding = 2300"
    using p by (rule mv [of "fst ?st"])
  moreover have "costBasis (build_rates test_rates) (base_of eur_user) tsla_holding = 1500"
    by (simp add: costBasis_def tsla_holding_def eur_user_def base_of_def or_num_def)
  ultimately show ?thesis
    using r by (intro exI [of _ ?S]) (simp add: make_summary_totals del: fetch_prices.simps)
qed

text \<open>
  Claim C8, as stated, fails. The snapshot reads prices from the cache only; the summary
  fetches a price when the cache has no fresh row. With 10 TSLA held, no cache row for TSLA
  and a provider quoting 250 USD, the summary reports a total wealth of 2300 EUR and the
  snapshot taken on the same state stores 0.
\<close>

theorem snapshot_differs_from_summary:
  "response_wealth (sum_response (dashboard_summary last test_clock (Inr test_client)
     test_accounts tsla_ledger test_cache test_rates eur_user)) = Some 2300
   \<and> sr_total_wealth (fst (post_daily_wealth last test_clock test_accounts tsla_ledger
        test_cache test_rates eur_user [])) = 0"
proof -
  have "marketValue (build_rates test_rates) (base_of eur_user)
          (cached_prices test_cache [''TSLA'']) tsla_holding = 0"
    by (simp add: marketValue_def price_data_def cached_prices_apply test_lookup
        tsla_holding_def Let_def)
  then have "sr_total_wealth (fst (post_daily_wealth last test_clock test_accounts tsla_ledger
        test_cache test_rates eur_user [])) = 0"
    by (simp add: post_daily_wealth_totals tsla_holdings) (simp add: tsla_holding_def)
  then show ?thesis
    using tsla_summary by (auto simp: response_wealth_def)
qed

text \<open>
  Claim C8, amended. Whenever the summary answers, the snapshot computed on the same state
  has the same total_cost; it has the same total_wealth when it runs on the price cache as
  the summary leaves it, and also on the same cache when no held symbol gets a newly fetched
  price (each has a fresh cache row, or its fetch fails). The snapshot replies with today's
  date and replaces the row of that date: afterwards the table holds exactly one row for
  today, carrying the replied totals, and the rows of other dates are unchanged, so repeated
  calls on one day never accumulate rows.
\<close>

theorem snapshot_matches_summary:
  "(\<forall>S. sum_response (dashboard_summary bare clk yf accts txs cache rateRows usr) = Summary S \<longrightarrow>
      sr_total_cost (fst (post_daily_wealth bare clk2 accts txs cache rateRows usr table))
        = total_cost S
    \<and> sr_total_wealth (fst (post_daily_wealth bare clk2 accts txs
          (sum_cache_after (dashboard_summary bare clk yf accts txs cache rateRows usr))
          rateRows usr table)) = total_wealth S
    \<and> ((\<forall>h \<in> set (holdings_query bare accts txs).
           fresh_lookup clk cache (h_symbol h) \<noteq> None
           \<or> (\<exists>client msg. yf = Inr client \<and> client (h_symbol h) = Inl msg)) \<longrightarrow>
        sr_total_wealth (fst (post_daily_wealth bare clk2 accts txs cache rateRows usr table))
          = total_wealth S))
   \<and> (case post_daily_wealth bare clk2 accts txs cache rateRows usr table of
        (reply, table') \<Rightarrow>
          sr_date reply = today clk2
          \<and> length (filter (\<lambda>r. dw_date r = today clk2) table') = 1
          \<and> filter (\<lambda>r. dw_date r \<noteq> today clk2) table'
              = filter (\<lambda>r. dw_date r \<noteq> today clk2) table
          \<and> (\<forall>r \<in> set table'. dw_date r = today clk2 \<longrightarrow>
                dw_total_wealth r = sr_total_wealth reply
                \<and> dw_total_cost r = sr_total_cost reply))"
proof (intro conjI allI impI)
  fix S
  assume S: "sum_response (dashboard_summary bare clk yf accts txs cache rateRows usr) = Summary S"
  let ?H = "holdings_query bare accts txs"
  let ?syms = "unique (map h_symbol ?H)"
  let ?c2 = "sum_cache_after (dashboard_summary bare clk yf accts txs cache rateRows usr)"
  from summary_prices [OF S] obtain prices where
    Seq: "S = make_summary (build_rates rateRows) (base_of usr) prices ?H"
    and each: "\<forall>h \<in> set ?H. \<exists>client. yf = Inr client
            \<and> prices (h_symbol h) = Some (price_for clk client cache (h_symbol h))
            \<and> ?c2 (h_symbol h) = row_after clk client cache (h_symbol h)"
    by (elim exE conjE)
  show "sr_total_cost (fst (post_daily_wealth bare clk2 accts txs cache rateRows usr table))
        = total_cost S"
    by (simp add: Seq post_daily_wealth_totals make_summary_totals)
  show "sr_total_wealth (fst (post_daily_wealth bare clk2 accts txs ?c2 rateRows usr table))
        = total_wealth S"
    unfolding Seq
  proof (rule snapshot_wealth_eq)
    fix h assume h: "h \<in> set ?H"
    then have m: "h_symbol h \<in> set ?syms" by (simp add: set_unique)
    from each h obtain client where
      "prices (h_symbol h) = Some (price_for clk client cache (h_symbol h))"
      "?c2 (h_symbol h) = row_after clk client cache (h_symbol h)"
      by blast
    then show "price_data (cached_prices ?c2 ?syms) (h_symbol h) = price_data prices (h_symbol h)"
      using m by (intro price_data_after [of _ _ clk client cache]) (simp_all add: cached_prices_apply)
  qed
  assume nofetch: "\<forall>h \<in> set ?H. fresh_lookup clk cache (h_symbol h) \<noteq> None
           \<or> (\<exists>client msg. yf = Inr client \<and> client (h_symbol h) = Inl msg)"
  show "sr_total_wealth (fst (post_daily_wealth bare clk2 accts txs cache rateRows usr table))
        = total_wealth S"
    unfolding Seq
  proof (rule snapshot_wealth_eq)
    fix h assume h: "h \<in> set ?H"
    then have m: "h_symbol h \<in> set ?syms" by (simp add: set_unique)
    from each h obtain client where yf: "yf = Inr client"
      and p: "prices (h_symbol h) = Some (price_for clk client cache (h_symbol h))"
      by blast
    from nofetch h yf have
      "fresh_lookup clk cache (h_symbol h) \<noteq> None \<or> (\<exists>msg. client (h_symbol h) = Inl msg)"
      by auto
    with p show "price_data (cached_prices cache ?syms) (h_symbol h) = price_data prices (h_symbol h)"
      using m by (intro price_data_same [of _ _ clk client cache]) (simp_all add: cached_prices_apply)
  qed
next
  from post_daily_wealth_row [of bare clk2 accts txs cache rateRows usr table]
  obtain reply row where
    p: "post_daily_wealth bare clk2 accts txs cache rateRows usr table
          = (reply, upsert_daily_wealth row table)"
    and r: "sr_date reply = today clk2" "dw_date row = today clk2"
      "dw_total_wealth row = sr_total_wealth reply" "dw_total_cost row = sr_total_cost reply"
    by (elim exE conjE)
  have one: "length (filter (\<lambda>r. dw_date r = today clk2) (upsert_daily_wealth row table)) = 1"
    and rest: "filter (\<lambda>r. dw_date r \<noteq> today clk2) (upsert_daily_wealth row table)
                 = filter (\<lambda>r. dw_date r \<noteq> today clk2) table"
    using upsert_daily_wealth_one [of row table] by (simp_all add: r)
  have only: "\<forall>x \<in> set (upsert_daily_wealth row table). dw_date x = today clk2 \<longrightarrow>
                dw_total_wealth x = sr_total_wealth reply \<and> dw_total_cost x = sr_total_cost reply"
    by (auto simp: upsert_daily_wealth_def r)
  show "case post_daily_wealth bare clk2 accts txs cache rateRows usr table of
        (reply, table') \<Rightarrow>
          sr_date reply = today clk2
          \<and> length (filter (\<lambda>r. dw_date r = today clk2) table') = 1
          \<and> filter (\<lambda>r. dw_date r \<noteq> today clk2) table'
              = filter (\<lambda>r. dw_date r \<noteq> today clk2) table
          \<and> (\<forall>r \<in> set table'. dw_date r = today clk2 \<longrightarrow>
                dw_total_wealth r = sr_total_wealth reply
                \<and> dw_total_cost r = sr_total_cost reply)"
    unfolding p using r(1) one rest only by simp
qed


theorem snapshot_matches_summary_witness:
  "sr_total_wealth (fst (post_daily_wealth last test_clock test_accounts tsla_ledger
      (sum_cache_after (dashboard_summary last test_clock (Inr test_client) test_accounts
         tsla_ledger test_cache test_rates eur_user))
      test_rates eur_user [old_row])) = 2300
   \<and> sr_total_cost (fst (post_daily_wealth last test_clock test_accounts tsla_ledger
        test_cache test_rates eur_user [old_row])) = 1500
   \<and> length (filter (\<lambda>r. dw_date r = ''2024-03-01'')
        (snd (post_daily_wealth last test_clock test_accounts tsla_ledger
           test_cache test_rates eur_user [old_row]))) = 1"
proof -
  from tsla_summary obtain S where
    S: "sum_response (dashboard_summary last test_clock (Inr test_client) test_accounts
            tsla_ledger test_cache test_rates eur_user) = Summary S"
    and w: "total_wealth S = 2300" and c: "total_cost S = 1500"
    by (elim exE conjE)
  have t: "today test_clock = ''2024-03-01''"
    by (simp add: today_def test_clock_def)
  note inst = snapshot_matches_summary [of last test_clock "Inr test_client" test_accounts
      tsla_ledger test_cache test_rates eur_user test_clock "[old_row]"]
  from inst [THEN conjunct1, rule_format, OF S]
  have a: "sr_total_cost (fst (post_daily_wealth last test_clock test_accounts tsla_ledger
        test_cache test_rates eur_user [old_row])) = 1500"
    and b: "sr_total_wealth (fst (post_daily_wealth last test_clock test_accounts tsla_ledger
      (sum_cache_after (dashboard_summary last test_clock (Inr test_client) test_accounts
         tsla_ledger test_cache test_rates eur_user))
      test_rates eur_user [old_row])) = 2300"
    by (simp_all add: w c)
  from inst [THEN conjunct2]
  have "length (filter (\<lambda>r. dw_date r = ''2024-03-01'')
        (snd (post_daily_wealth last test_clock test_accounts tsla_ledger
           test_cache test_rates eur_user [old_row]))) = 1"
    by (simp add: t split: prod.splits)
  with a b show ?thesis by simp
qed


subsection \<open>Currency conversion\<close>

lemma build_rates_fold_None:
  "\<forall>r \<in> set rateRows. rate_key (from_currency r) (to_currency r) \<noteq> k \<Longrightarrow> m k = None \<Longrightarrow>
   fold (\<lambda>r m. m(rate_key (from_currency r) (to_currency r) \<mapsto> rate r)) rateRows m k = None"
  by (induction rateRows arbitrary: m) auto

lemma build_rates_None:
  "\<forall>r \<in> set rateRows. rate_key (from_currency r) (to_currency r) \<noteq> k \<Longrightarrow>
   build_rates rateRows k = None"
  unfolding build_rates_def by (rule build_rates_fold_None) simp_all

lemma rate_key_inj:
  assumes "CHR ''_'' \<notin> set f" "CHR ''_'' \<notin> set f'" "rate_key f t = rate_key f' t'"
  shows "f = f' \<and> t = t'"
proof -
  have "takeWhile (\<lambda>c. c \<noteq> CHR ''_'') (f @ CHR ''_'' # t) = f"
    using assms(1) by (subst takeWhile_append2) auto
  moreover have "takeWhile (\<lambda>c. c \<noteq> CHR ''_'') (f' @ CHR ''_'' # t') = f'"
    using assms(2) by (subst takeWhile_append2) auto
  ultimately have "f = f'"
    using assms(3) by (simp add: rate_key_def)
  then show ?thesis
    using assms(3) by (simp add: rate_key_def)
qed

text \<open>
  Claim C7, as stated, fails on the conversion route: with no rate stored for USD to EUR,
  GET /convert answers 404 "No rate found", not the amount unchanged.
\<close>

theorem convert_missing_rate_is_error:
  "convert test_parseFloat [] (Some ''USD'') (Some ''EUR'') (Some ''100'')
     = ConvertNotFound ''No rate found for USD to EUR''"
  by (simp add: convert_def missing_def select_rate_def toUpperCase_def upper_char_def)


text \<open>
  The valuation keeps its rates under the key \<open>from_to\<close>, so a rate stored for another
  pair can answer a lookup when a code contains an underscore: the row from \<open>A_B\<close> to
  \<open>C\<close> is found for a price in \<open>A\<close> and the base currency \<open>B_C\<close>.
\<close>

lemma rate_key_collision:
  "select_rate [\<lparr> from_currency = ''A_B'', to_currency = ''C'', rate = 2 \<rparr>] ''A'' ''B_C'' = None
   \<and> marketValue (build_rates [\<lparr> from_currency = ''A_B'', to_currency = ''C'', rate = 2 \<rparr>])
         ''B_C''
         [''AAPL'' \<mapsto> \<lparr> pc_symbol = ''AAPL'', pc_price = 200, pc_currency = ''A'',
                          pc_name = ''Apple Inc.'', pc_change_percent = 0,
                          pc_updated_at = ''2024-03-01 11:58:00'' \<rparr>]
         aapl_holding = 4000"
  by (simp add: select_rate_def marketValue_def price_data_def build_rates_def rate_key_def
      aapl_holding_def or_num_def Let_def)

text \<open>
  Claim C7, amended. Let A and B be distinct currency codes, A not empty, such that no
  stored rate row has the key \<open>A_B\<close>, the string \<open>from_currency_to_currency\<close> under which
  the valuation of holdings (dashboard summary and daily snapshot) keeps and looks up its
  rates. Then an amount converted from A to the base currency B is multiplied by 1, that
  is, unchanged. When neither A nor any stored \<open>from_currency\<close> contains an underscore,
  no row has the key \<open>A_B\<close> exactly when no rate row is stored for the directed pair A to
  B. An amount already in the base currency is unchanged whatever the rates are.
  GET /convert answers 404 for a pair without a rate row. For equal currencies (compared
  after upper-casing) GET /convert returns the parsed amount with rate 1 whatever the rate
  table holds.
\<close>

theorem missing_rate_policy:
  "(\<forall>h prices. (\<forall>r \<in> set rateRows. rate_key (from_currency r) (to_currency r) \<noteq> rate_key A B)
       \<and> A \<noteq> B \<and> A \<noteq> [] \<longrightarrow>
      (snd (price_data prices (h_symbol h)) = A \<longrightarrow>
         marketValue (build_rates rateRows) B prices h
           = h_quantity h * fst (price_data prices (h_symbol h)))
      \<and> (h_account_currency h = A \<longrightarrow>
         costBasis (build_rates rateRows) B h = h_quantity h * or_num (h_avg_cost h) 0))
   \<and> ((\<forall>r \<in> set rateRows. CHR ''_'' \<notin> set (from_currency r)) \<and> CHR ''_'' \<notin> set A \<longrightarrow>
        (\<forall>r \<in> set rateRows. rate_key (from_currency r) (to_currency r) \<noteq> rate_key A B)
          = (\<forall>r \<in> set rateRows. \<not> (from_currency r = A \<and> to_currency r = B)))
   \<and> (\<forall>h prices rates. B \<noteq> [] \<longrightarrow>
      (snd (price_data prices (h_symbol h)) = B \<longrightarrow>
         marketValue rates B prices h = h_quantity h * fst (price_data prices (h_symbol h)))
      \<and> (h_account_currency h = B \<longrightarrow>
         costBasis rates B h = h_quantity h * or_num (h_avg_cost h) 0))
   \<and> (\<forall>from to amount. \<not> missing (Some from) \<and> \<not> missing (Some to) \<and> \<not> missing (Some amount)
         \<and> toUpperCase from \<noteq> toUpperCase to
         \<and> (\<forall>r \<in> set rateRows. \<not> (from_currency r = toUpperCase from
                                      \<and> to_currency r = toUpperCase to)) \<longrightarrow>
       convert parseFloat rateRows (Some from) (Some to) (Some amount)
         = ConvertNotFound (''No rate found for '' @ from @ '' to '' @ to))
   \<and> (\<forall>from to amount. \<not> missing (Some from) \<and> \<not> missing (Some to) \<and> \<not> missing (Some amount)
         \<and> toUpperCase from = toUpperCase to \<longrightarrow>
       convert parseFloat rateRows (Some from) (Some to) (Some amount)
         = Converted (parseFloat amount) 1
       \<and> convert parseFloat rateRows' (Some from) (Some to) (Some amount)
         = convert parseFloat rateRows (Some from) (Some to) (Some amount))"
proof (intro conjI allI impI)
  fix h prices
  assume a: "(\<forall>r \<in> set rateRows. rate_key (from_currency r) (to_currency r) \<noteq> rate_key A B)
       \<and> A \<noteq> B \<and> A \<noteq> []"
  then have "\<forall>r \<in> set rateRows. rate_key (from_currency r) (to_currency r) \<noteq> rate_key A B"
    by (rule conjunct1)
  then have none: "build_rates rateRows (rate_key A B) = None"
    by (rule build_rates_None)
  show "marketValue (build_rates rateRows) B prices h
           = h_quantity h * fst (price_data prices (h_symbol h))"
    if "snd (price_data prices (h_symbol h)) = A"
    using that a none by (simp add: marketValue_def Let_def or_num_def)
  show "costBasis (build_rates rateRows) B h = h_quantity h * or_num (h_avg_cost h) 0"
    if "h_account_currency h = A"
    using that a none by (simp add: costBasis_def Let_def or_num_def)
next
  assume u: "(\<forall>r \<in> set rateRows. CHR ''_'' \<notin> set (from_currency r)) \<and> CHR ''_'' \<notin> set A"
  show "(\<forall>r \<in> set rateRows. rate_key (from_currency r) (to_currency r) \<noteq> rate_key A B)
          = (\<forall>r \<in> set rateRows. \<not> (from_currency r = A \<and> to_currency r = B))"
  proof
    assume k: "\<forall>r \<in> set rateRows. rate_key (from_currency r) (to_currency r) \<noteq> rate_key A B"
    show "\<forall>r \<in> set rateRows. \<not> (from_currency r = A \<and> to_currency r = B)"
    proof
      fix r assume "r \<in> set rateRows"
      with k have "rate_key (from_currency r) (to_currency r) \<noteq> rate_key A B" by (rule bspec)
      then show "\<not> (from_currency r = A \<and> to_currency r = B)" by auto
    qed
  next
    assume p: "\<forall>r \<in> set rateRows. \<not> (from_currency r = A \<and> to_currency r = B)"
    show "\<forall>r \<in> set rateRows. rate_key (from_currency r) (to_currency r) \<noteq> rate_key A B"
    proof
      fix r assume r: "r \<in> set rateRows"
      show "rate_key (from_currency r) (to_currency r) \<noteq> rate_key A B"
      proof
        assume "rate_key (from_currency r) (to_currency r) = rate_key A B"
        with u r have "from_currency r = A \<and> to_currency r = B"
          by (intro rate_key_inj) auto
        with p r show False by blast
      qed
    qed
  qed
next
  fix h prices rates
  assume "B \<noteq> []"
  then show "marketValue rates B prices h = h_quantity h * fst (price_data prices (h_symbol h))"
    if "snd (price_data prices (h_symbol h)) = B"
    using that by (simp add: marketValue_def Let_def)
  show "costBasis rates B h = h_quantity h * or_num (h_avg_cost h) 0"
    if "h_account_currency h = B"
    using that by (simp add: costBasis_def Let_def)
next
  fix "from" to amount
  assume "\<not> missing (Some from) \<and> \<not> missing (Some to) \<and> \<not> missing (Some amount)
         \<and> toUpperCase from \<noteq> toUpperCase to
         \<and> (\<forall>r \<in> set rateRows. \<not> (from_currency r = toUpperCase from
                                      \<and> to_currency r = toUpperCase to))"
  then have n: "\<not> missing (Some from)" "\<not> missing (Some to)" "\<not> missing (Some amount)"
    "toUpperCase from \<noteq> toUpperCase to"
    and "find (\<lambda>r. from_currency r = toUpperCase from \<and> to_currency r = toUpperCase to)
           rateRows = None"
    by (simp_all add: find_None_iff)
  then show "convert parseFloat rateRows (Some from) (Some to) (Some amount)
         = ConvertNotFound (''No rate found for '' @ from @ '' to '' @ to)"
    by (simp add: convert_def select_rate_def)
next
  fix "from" to amount
  assume a: "\<not> missing (Some from) \<and> \<not> missing (Some to) \<and> \<not> missing (Some amount)
         \<and> toUpperCase from = toUpperCase to"
  then show "convert parseFloat rateRows (Some from) (Some to) (Some amount)
         = Converted (parseFloat amount) 1"
    by (simp add: convert_def)
  from a show "convert parseFloat rateRows' (Some from) (Some to) (Some amount)
         = convert parseFloat rateRows (Some from) (Some to) (Some amount)"
    by (simp add: convert_def)
qed

theorem missing_rate_policy_witness:
  "marketValue (build_rates test_rates) ''EUR'' gbp_prices aapl_holding = 2000
   \<and> convert test_parseFloat test_rates (Some ''GBP'') (Some ''EUR'') (Some ''100'')
       = ConvertNotFound ''No rate found for GBP to EUR''
   \<and> convert test_parseFloat test_rates (Some ''eur'') (Some ''EUR'') (Some ''100'')
       = Converted (Some 100) 1"
proof -
  note inst = missing_rate_policy [of test_rates "''GBP''" "''EUR''" test_parseFloat test_rates]
  have up: "toUpperCase ''GBP'' = ''GBP''" "toUpperCase ''EUR'' = ''EUR''"
    "toUpperCase ''eur'' = ''EUR''"
    by (simp_all add: toUpperCase_def upper_char_def)
  have pd: "price_data gbp_prices (h_symbol aapl_holding) = (200, ''GBP'')"
    by (simp add: price_data_def gbp_prices_def aapl_holding_def)
  have us: "(\<forall>r \<in> set test_rates. CHR ''_'' \<notin> set (from_currency r)) \<and> CHR ''_'' \<notin> set ''GBP''"
    by (simp add: test_rates_def)
  have pair: "\<forall>r \<in> set test_rates. \<not> (from_currency r = ''GBP'' \<and> to_currency r = ''EUR'')"
    by (simp add: test_rates_def)
  have key: "\<forall>r \<in> set test_rates.
               rate_key (from_currency r) (to_currency r) \<noteq> rate_key ''GBP'' ''EUR''"
    using inst [THEN conjunct2, THEN conjunct1, THEN mp, OF us] pair by (rule iffD2)
  have "marketValue (build_rates test_rates) ''EUR'' gbp_prices aapl_holding
          = h_quantity aapl_holding * fst (price_data gbp_prices (h_symbol aapl_holding))"
    using inst [THEN conjunct1, rule_format, of gbp_prices aapl_holding, THEN conjunct1] key
    by (simp add: pd)
  then have a: "marketValue (build_rates test_rates) ''EUR'' gbp_prices aapl_holding = 2000"
    by (simp add: pd) (simp add: aapl_holding_def)
  have b: "convert test_parseFloat test_rates (Some ''GBP'') (Some ''EUR'') (Some ''100'')
       = ConvertNotFound ''No rate found for GBP to EUR''"
    using inst [THEN conjunct2, THEN conjunct2, THEN conjunct2, THEN conjunct1, rule_format,
        of "''GBP''" "''EUR''" "''100''"]
    by (simp add: up missing_def test_rates_def)
  have c: "convert test_parseFloat test_rates (Some ''eur'') (Some ''EUR'') (Some ''100'')
       = Converted (Some 100) 1"
    using inst [THEN conjunct2, THEN conjunct2, THEN conjunct2, THEN conjunct2, rule_format,
        of "''eur''" "''EUR''" "''100''"]
    by (simp add: up missing_def test_parseFloat_def)
  from a b c show ?thesis by simp
qed


subsection \<open>Portfolio history\<close>

lemma filter_eq_take:
  assumes "i \<le> length xs" "\<forall>k<i. P (xs ! k)" "\<forall>k. i \<le> k \<and> k < length xs \<longrightarrow> \<not> P (xs ! k)"
  shows "filter P xs = take i xs"
proof -
  have a: "filter P (take i xs) = take i xs"
    using assms(1,2) by (auto simp: filter_id_conv in_set_conv_nth)
  have b: "filter P (drop i xs) = []"
    using assms(1,3) by (auto simp: filter_empty_conv in_set_conv_nth)
  have "filter P xs = filter P (take i xs @ drop i xs)" by simp
  also have "\<dots> = take i xs" unfolding filter_append a b by simp
  finally show ?thesis .
qed

lemma foldl_take_Suc:
  "i < length xs \<Longrightarrow> foldl f a (take (Suc i) xs) = f (foldl f a (take i xs)) (xs ! i)"
  by (simp add: take_Suc_conv_app_nth)

lemma advance_applies_prefix:
  "sorted (map date txs) \<Longrightarrow> i \<le> length txs \<Longrightarrow> \<forall>k<i. date (txs ! k) \<le> d \<Longrightarrow> rh = foldl apply_tx [] (take i txs) \<Longrightarrow>
     advance txs d (i, rh) =
       (length (filter (\<lambda>t. date t \<le> d) txs), foldl apply_tx [] (filter (\<lambda>t. date t \<le> d) txs))
     \<and> take (length (filter (\<lambda>t. date t \<le> d) txs)) txs = filter (\<lambda>t. date t \<le> d) txs"
proof (induction txs d "(i, rh)" arbitrary: i rh rule: advance.induct)
  case (1 txs d i rh)
  show ?case
  proof (cases "i < length txs \<and> date (txs ! i) \<le> d")
    case True
    have step: "advance txs d (i, rh) = advance txs d (Suc i, apply_tx rh (txs ! i))"
      using True by (subst advance.simps) simp
    have "\<forall>k<Suc i. date (txs ! k) \<le> d"
      using True "1.prems"(3) by (auto simp: less_Suc_eq)
    moreover have "apply_tx rh (txs ! i) = foldl apply_tx [] (take (Suc i) txs)"
      using True "1.prems"(4) by (simp add: foldl_take_Suc)
    moreover have "Suc i \<le> length txs" using True by simp
    ultimately show ?thesis
      unfolding step using "1.hyps" [OF True] "1.prems"(1) by blast
  next
    case False
    have stop: "advance txs d (i, rh) = (i, rh)"
      using False by (subst advance.simps) auto
    have later: "\<not> date (txs ! k) \<le> d" if k: "i \<le> k" "k < length txs" for k
    proof -
      from k have i: "i < length txs" by simp
      with False have "\<not> date (txs ! i) \<le> d" by simp
      moreover have "date (txs ! i) \<le> date (txs ! k)"
        using "1.prems"(1) k i sorted_nth_mono [of "map date txs" i k] by simp
      ultimately show ?thesis by auto
    qed
    have f: "filter (\<lambda>t. date t \<le> d) txs = take i txs"
      using "1.prems"(2,3) later by (intro filter_eq_take) auto
    have l: "length (take i txs) = i"
      using "1.prems"(2) by simp
    show ?thesis
      unfolding stop f l using "1.prems"(4) by simp
  qed
qed


lemma history_loop_replay:
  "sorted (map date txs) \<Longrightarrow> sorted ds \<Longrightarrow> i \<le> length txs \<Longrightarrow>
   \<forall>k<i. \<forall>d \<in> set ds. date (txs ! k) \<le> d \<Longrightarrow> rh = foldl apply_tx [] (take i txs) \<Longrightarrow>
   history_loop txs ph ds (i, rh) =
     map (\<lambda>d. (make_point txs ph d (foldl apply_tx [] (applied_upto txs d)),
               length (applied_upto txs d), foldl apply_tx [] (applied_upto txs d))) ds"
proof (induction ds arbitrary: i rh)
  case Nil
  then show ?case by simp
next
  case (Cons d ds)
  let ?A = "applied_upto txs d"
  have "\<forall>k<i. date (txs ! k) \<le> d"
    using Cons.prems(4) by simp
  from advance_applies_prefix [OF Cons.prems(1) Cons.prems(3) this Cons.prems(5)]
  have adv: "advance txs d (i, rh) = (length ?A, foldl apply_tx [] ?A)"
    and tk: "take (length ?A) txs = ?A"
    by (simp_all add: applied_upto_def)
  have le: "length ?A \<le> length txs"
    by (simp add: applied_upto_def)
  have before: "\<forall>k<length ?A. \<forall>d' \<in> set ds. date (txs ! k) \<le> d'"
  proof (intro allI impI ballI)
    fix k d' assume k: "k < length ?A" and d': "d' \<in> set ds"
    have "txs ! k = ?A ! k"
      using k tk by (metis nth_take)
    then have "txs ! k \<in> set ?A"
      using k by simp
    then have "date (txs ! k) \<le> d"
      by (simp add: applied_upto_def)
    moreover have "d \<le> d'"
      using Cons.prems(2) d' by simp
    ultimately show "date (txs ! k) \<le> d'" by simp
  qed
  have rest: "history_loop txs ph ds (length ?A, foldl apply_tx [] ?A) =
     map (\<lambda>d. (make_point txs ph d (foldl apply_tx [] (applied_upto txs d)),
               length (applied_upto txs d), foldl apply_tx [] (applied_upto txs d))) ds"
    using Cons.prems(1,2) le before tk by (intro Cons.IH) simp_all
  show ?case
    by (simp add: Let_def adv rest)
qed










lemma sorted_select_transactions: "sorted (map date (select_transactions account ledger))"
  by (simp add: select_transactions_def)

lemma keys_assign:
  "map fst (assign k v m) = (if k \<in> set (map fst m) then map fst m else map fst m @ [k])"
  by (induction m) (force simp: image_iff)+

lemma distinct_assign: "distinct (map fst m) \<Longrightarrow> distinct (map fst (assign k v m))"
  by (simp add: keys_assign)

lemma distinct_apply_tx: "distinct (map fst m) \<Longrightarrow> distinct (map fst (apply_tx m tx))"
  by (simp add: apply_tx_def Let_def distinct_assign split: option.splits)

lemma distinct_replayed: "distinct (map fst m) \<Longrightarrow> distinct (map fst (foldl apply_tx m txs))"
  by (induction txs arbitrary: m) (simp_all add: distinct_apply_tx)

lemma fold_value_sum:
  "fold (\<lambda>(sy, qty) totalValue. if qty \<le> e then totalValue else totalValue + qty * f sy) xs acc
     = acc + sum_list (map (\<lambda>(sy, qty). qty * f sy) (filter (\<lambda>(sy, qty). qty > (e :: real)) xs))"
  by (induction xs arbitrary: acc) (auto simp: not_le)

lemma entries_by_symbol:
  assumes "distinct (map fst held)"
  shows "sum_list (map (\<lambda>(sy, qty). qty * f sy) (filter (\<lambda>(sy, qty). qty > e) held))
     = sum_list (map (\<lambda>sy. running_quantity held sy * f sy)
                  (filter (\<lambda>sy. running_quantity held sy > e) (map fst held)))"
proof -
  have q: "running_quantity held sy = qty" if "(sy, qty) \<in> set held" for sy qty
    using that assms by (simp add: running_quantity_def)
  have a: "filter (\<lambda>(sy, qty). qty > e) held
             = filter (\<lambda>x. running_quantity held (fst x) > e) held"
    by (rule filter_cong [OF refl]) (use q in fastforce)
  have b: "map (\<lambda>(sy, qty). qty * f sy) (filter (\<lambda>x. running_quantity held (fst x) > e) held)
      = map (\<lambda>x. running_quantity held (fst x) * f (fst x))
          (filter (\<lambda>x. running_quantity held (fst x) > e) held)"
    by (rule map_cong [OF refl]) (use q in fastforce)
  show ?thesis
    by (simp only: a b) (simp add: filter_map comp_def)
qed

lemma total_value_by_symbol:
  "distinct (map fst held) \<Longrightarrow> total_value ph d held = holdings_value ph d held"
  unfolding total_value_def holdings_value_def
  by (simp only: fold_value_sum entries_by_symbol)

lemma fold_cost_sum:
  "fold (\<lambda>tx totalCost. if P tx then totalCost + g tx else totalCost) xs acc
     = acc + sum_list (map g (filter P xs :: 'a list)) " for acc :: real
  by (induction xs arbitrary: acc) auto

lemma acquiring_iff: "acquiring ty = (ty \<in> {Buy, TransferIn})"
  by (cases ty) simp_all

lemma total_cost_upto_sum: "total_cost_upto txs d = acquisition_cost txs d"
  unfolding total_cost_upto_def acquisition_cost_def applied_upto_def
  by (simp add: fold_cost_sum acquiring_iff)


lemma make_point_replayed:
  "make_point txs ph d (foldl apply_tx [] (applied_upto txs d)) =
     \<lparr> hp_date = d,
       hp_value = round2 (holdings_value ph d (foldl apply_tx [] (applied_upto txs d))),
       hp_cost = round2 (acquisition_cost txs d),
       hp_gain = round2 (holdings_value ph d (foldl apply_tx [] (applied_upto txs d))
                         - acquisition_cost txs d) \<rparr>"
proof -
  have "distinct (map fst (foldl apply_tx [] (applied_upto txs d)))"
    by (rule distinct_replayed) simp
  then have "total_value ph d (foldl apply_tx [] (applied_upto txs d))
               = holdings_value ph d (foldl apply_tx [] (applied_upto txs d))"
    by (rule total_value_by_symbol)
  then show ?thesis
    by (simp add: make_point_def Let_def total_cost_upto_sum)
qed




lemma history_loop_points:
  assumes "sorted dates"
  shows "history_loop (select_transactions account ledger) ph dates (0, []) =
        map (\<lambda>d. (\<lparr> hp_date = d,
                     hp_value = round2 (holdings_value ph d
                        (foldl apply_tx [] (applied_upto (select_transactions account ledger) d))),
                     hp_cost = round2 (acquisition_cost (select_transactions account ledger) d),
                     hp_gain = round2 (holdings_value ph d
                        (foldl apply_tx [] (applied_upto (select_transactions account ledger) d))
                        - acquisition_cost (select_transactions account ledger) d) \<rparr>,
                  length (applied_upto (select_transactions account ledger) d),
                  foldl apply_tx [] (applied_upto (select_transactions account ledger) d)))
          dates"
proof -
  have "history_loop (select_transactions account ledger) ph dates (0, []) =
        map (\<lambda>d. (make_point (select_transactions account ledger) ph d
                    (foldl apply_tx [] (applied_upto (select_transactions account ledger) d)),
                  length (applied_upto (select_transactions account ledger) d),
                  foldl apply_tx [] (applied_upto (select_transactions account ledger) d)))
          dates"
    using assms by (intro history_loop_replay sorted_select_transactions) simp_all
  then show ?thesis
    by (simp only: make_point_replayed)
qed



lemma aapl_selected: "select_transactions None aapl_ledger = aapl_ledger"
  by (simp add: select_transactions_def aapl_ledger_def mk_tx_def)

lemma aapl_applied:
  "applied_upto aapl_ledger ''2024-02-01'' = [mk_tx 1 ''AAPL'' Buy 10 150 ''USD'' ''2024-01-15'']"
  "applied_upto aapl_ledger ''2024-02-20'' =
     [mk_tx 1 ''AAPL'' Buy 10 150 ''USD'' ''2024-01-15'',
      mk_tx 1 ''AAPL'' Buy 5 160 ''USD'' ''2024-02-15'']"
  "applied_upto aapl_ledger ''2024-04-01'' = aapl_ledger"
  by (simp_all add: applied_upto_def aapl_ledger_def mk_tx_def)

lemma aapl_running:
  "foldl apply_tx [] [mk_tx 1 ''AAPL'' Buy 10 150 ''USD'' ''2024-01-15''] = [(''AAPL'', 10)]"
  "foldl apply_tx [] [mk_tx 1 ''AAPL'' Buy 10 150 ''USD'' ''2024-01-15'',
                      mk_tx 1 ''AAPL'' Buy 5 160 ''USD'' ''2024-02-15''] = [(''AAPL'', 15)]"
  "foldl apply_tx [] aapl_ledger = [(''AAPL'', 12)]"
  by (simp_all add: aapl_ledger_def apply_tx_def mk_tx_def Let_def)

lemma aapl_prices:
  "price_at (Some aapl_history) ''2024-02-01'' = 190"
  "price_at (Some aapl_history) ''2024-02-20'' = 190"
  "price_at (Some aapl_history) ''2024-04-01'' = 210"
  by (simp_all add: price_at_def aapl_history_def Let_def)

lemma aapl_costs:
  "acquisition_cost aapl_ledger ''2024-02-01'' = 1500"
  "acquisition_cost aapl_ledger ''2024-02-20'' = 2300"
  "acquisition_cost aapl_ledger ''2024-04-01'' = 2300"
  by (simp_all add: acquisition_cost_def aapl_applied) (simp_all add: aapl_ledger_def mk_tx_def)


lemma aapl_held:
  "foldl apply_tx [] (applied_upto aapl_ledger ''2024-02-01'') = [(''AAPL'', 10)]"
  "foldl apply_tx [] (applied_upto aapl_ledger ''2024-02-20'') = [(''AAPL'', 15)]"
  "foldl apply_tx [] (applied_upto aapl_ledger ''2024-04-01'') = [(''AAPL'', 12)]"
  by (simp_all only: aapl_applied aapl_running)


lemma aapl_held_values:
  "holdings_value [''AAPL'' \<mapsto> aapl_history] ''2024-02-01'' [(''AAPL'', 10)] = 1900"
  "holdings_value [''AAPL'' \<mapsto> aapl_history] ''2024-02-20'' [(''AAPL'', 15)] = 2850"
  "holdings_value [''AAPL'' \<mapsto> aapl_history] ''2024-04-01'' [(''AAPL'', 12)] = 2520"
  by (simp_all add: holdings_value_def running_quantity_def aapl_prices)





text \<open>The route itself, on the same ledger and a chart of four closes.\<close>

lemma aapl_active: "active_symbols (foldl apply_tx [] aapl_ledger) = [''AAPL'']"
  by (simp add: aapl_running active_symbols_def)

lemma aapl_histories:
  "price_histories aapl_chart test_cache [''AAPL''] = [''AAPL'' \<mapsto> aapl_history]"
  by (simp add: price_histories_def history_for_def aapl_chart_def series_of_def aapl_history_def)

lemma aapl_dates:
  "sorted_dates [''AAPL'' \<mapsto> aapl_history] [''AAPL'']
     = [''2024-01-01'', ''2024-02-01'', ''2024-03-01'', ''2024-04-01'']"
  by (simp add: sorted_dates_def aapl_history_def)


lemma aapl_route_facts:
  "applied_upto aapl_ledger ''2024-01-01'' = []"
  "applied_upto aapl_ledger ''2024-03-01'' =
     [mk_tx 1 ''AAPL'' Buy 10 150 ''USD'' ''2024-01-15'',
      mk_tx 1 ''AAPL'' Buy 5 160 ''USD'' ''2024-02-15'']"
  "holdings_value [''AAPL'' \<mapsto> aapl_history] ''2024-01-01'' [] = 0"
  "holdings_value [''AAPL'' \<mapsto> aapl_history] ''2024-03-01'' [(''AAPL'', 15)] = 3000"
  "acquisition_cost aapl_ledger ''2024-01-01'' = 0"
  "acquisition_cost aapl_ledger ''2024-03-01'' = 2300"
  by (simp_all add: applied_upto_def acquisition_cost_def holdings_value_def
      running_quantity_def price_at_def aapl_history_def aapl_ledger_def mk_tx_def Let_def)

lemma aapl_route_points:
  "portfolio_history (Inr aapl_chart) test_cache None aapl_ledger =
     History
       [\<lparr> hp_date = ''2024-01-01'', hp_value = 0, hp_cost = 0, hp_gain = 0 \<rparr>,
        \<lparr> hp_date = ''2024-02-01'', hp_value = 1900, hp_cost = 1500, hp_gain = 400 \<rparr>,
        \<lparr> hp_date = ''2024-03-01'', hp_value = 3000, hp_cost = 2300, hp_gain = 700 \<rparr>,
        \<lparr> hp_date = ''2024-04-01'', hp_value = 2520, hp_cost = 2300, hp_gain = 220 \<rparr>]"
proof -
  let ?dates = "[''2024-01-01'', ''2024-02-01'', ''2024-03-01'', ''2024-04-01'']"
  have ne: "aapl_ledger \<noteq> []" by (simp add: aapl_ledger_def)
  have "portfolio_history (Inr aapl_chart) test_cache None aapl_ledger =
          History (map fst (history_loop aapl_ledger [''AAPL'' \<mapsto> aapl_history] ?dates (0, [])))"
    by (simp add: portfolio_history_def Let_def aapl_selected ne aapl_active aapl_histories
        aapl_dates)
  moreover have "sorted ?dates" by simp
  then have "history_loop aapl_ledger [''AAPL'' \<mapsto> aapl_history] ?dates (0, []) =
        map (\<lambda>d. (\<lparr> hp_date = d,
                     hp_value = round2 (holdings_value [''AAPL'' \<mapsto> aapl_history] d
                        (foldl apply_tx [] (applied_upto aapl_ledger d))),
                     hp_cost = round2 (acquisition_cost aapl_ledger d),
                     hp_gain = round2 (holdings_value [''AAPL'' \<mapsto> aapl_history] d
                        (foldl apply_tx [] (applied_upto aapl_ledger d))
                        - acquisition_cost aapl_ledger d) \<rparr>,
                  length (applied_upto aapl_ledger d),
                  foldl apply_tx [] (applied_upto aapl_ledger d)))
          ?dates"
    by (rule history_loop_points [where account = None and ledger = aapl_ledger,
          unfolded aapl_selected])
  ultimately show ?thesis
    by (simp only: list.map fst_conv aapl_held aapl_route_facts aapl_running aapl_held_values
        aapl_costs foldl_Nil)
      (simp add: round2_def)
qed


subsection \<open>Dividend, interest and fee in the replay\<close>

text \<open>Where dividend, interest and fee rows do and do not count.\<close>

lemma aggregates_ignore_income:
  assumes "tx_type t \<in> {Dividend, Interest, Fee}"
  shows "acq_qty (rows @ t # rows') = acq_qty (rows @ rows')"
    "disp_qty (rows @ t # rows') = disp_qty (rows @ rows')"
    "acq_cost (rows @ t # rows') = acq_cost (rows @ rows')"
  using assms by (auto simp: acq_qty_def disp_qty_def acq_cost_def)

lemma map_of_assign: "map_of (assign k v m) s = (if s = k then Some v else map_of m s)"
  by (induction m) auto

lemma replay_ignores_interest_and_fee:
  assumes "tx_type t \<in> {Interest, Fee}"
  shows "running_quantity (apply_tx m t) s = running_quantity m s"
  using assms
  by (auto simp: apply_tx_def running_quantity_def Let_def map_of_assign split: option.splits)

lemma replay_adds_dividend:
  assumes "tx_type t = Dividend"
  shows "running_quantity (apply_tx m t) (symbol t) = running_quantity m (symbol t) + quantity t"
  using assms
  by (auto simp: apply_tx_def running_quantity_def Let_def map_of_assign split: option.splits)

text \<open>
  Claim C6. Dividend, interest and fee transactions leave quantity and cost basis unchanged
  in the Holdings Aggregator and in the replay of the portfolio history.

  The replay does not do so. On a ledger with a single dividend of 12.5 on AAPL (the record
  the Revolut parser writes for a cash dividend of 12.50), both \<open>holdingMap\<close> and the
  \<open>runningHoldings\<close> of the loop hold the quantity 12.5 for AAPL, while the aggregator's
  quantity of (AAPL, 1) is 0.
\<close>

theorem replay_counts_dividend:
  "foldl apply_tx [] (select_transactions None dividend_ledger) = [(''AAPL'', 25 / 2)]
   \<and> map snd (history_loop (select_transactions None dividend_ledger) Map.empty
         [''2024-03-01''] (0, [])) = [(1, [(''AAPL'', 25 / 2)])]
   \<and> net_quantity test_accounts dividend_ledger (''AAPL'', 1) = 0"
proof -
  have s: "select_transactions None dividend_ledger = dividend_ledger"
    by (simp add: select_transactions_def dividend_ledger_def)
  have a: "advance dividend_ledger ''2024-03-01'' (0, []) = (1, [(''AAPL'', 25 / 2)])"
    by (simp add: advance.simps dividend_ledger_def mk_tx_def apply_tx_def Let_def)
  have n: "net_quantity test_accounts dividend_ledger (''AAPL'', 1) = 0"
    by (simp add: net_quantity_def joined_def List.map_filter_def test_accounts_def
        dividend_ledger_def mk_tx_def group_rows_def acq_qty_def disp_qty_def)
  show ?thesis
    unfolding s using n
    by (simp add: a Let_def) (simp add: dividend_ledger_def mk_tx_def apply_tx_def Let_def)
qed

subsection \<open>Import deduplication\<close>

lemma inserted_row_fingerprint:
  "row_fingerprint (inserted_row a tx) = tx_fingerprint a tx"
  by (simp add: row_fingerprint_def inserted_row_def tx_fingerprint_def)

lemma existing_after_insert:
  "getExistingFingerprints a (ledger @ [inserted_row a tx]) =
     insert (tx_fingerprint a tx) (getExistingFingerprints a ledger)"
  by (auto simp: getExistingFingerprints_def inserted_row_fingerprint)
    (simp_all add: inserted_row_def)

lemma import_loop_mirror:
  "existing st = getExistingFingerprints a (ledger_of st) \<Longrightarrow>
   existing (import_loop refused a i txs st) =
     getExistingFingerprints a (ledger_of (import_loop refused a i txs st))"
proof (induction txs arbitrary: i st)
  case Nil
  then show ?case by simp
next
  case (Cons tx txs)
  show ?case
  proof (cases "tx_fingerprint a tx \<in> existing st")
    case True
    then show ?thesis
      using Cons.IH [of "st\<lparr> skipped := skipped st + 1 \<rparr>" "Suc i"] Cons.prems by simp
  next
    case False
    show ?thesis
    proof (cases "refused (inserted_row a tx)")
      case (Some msg)
      then show ?thesis
        using False Cons.prems
          Cons.IH [of "st\<lparr> errors := errors st @ [''Row '' @ show_nat (i + 1) @ '': '' @ msg] \<rparr>"
            "Suc i"]
        by simp
    next
      case None
      then show ?thesis
        using False Cons.prems
          Cons.IH [of "st\<lparr> ledger_of := ledger_of st @ [inserted_row a tx],
                     existing := insert (tx_fingerprint a tx) (existing st),
                     imported := imported st + 1 \<rparr>" "Suc i"]
        by (simp add: existing_after_insert)
    qed
  qed
qed

lemma import_loop_grows:
  "existing st \<subseteq> existing (import_loop refused a i txs st)"
proof (induction txs arbitrary: i st)
  case Nil
  then show ?case by simp
next
  case (Cons tx txs)
  show ?case
  proof (cases "tx_fingerprint a tx \<in> existing st")
    case True
    then show ?thesis
      using Cons.IH [of "st\<lparr> skipped := skipped st + 1 \<rparr>" "Suc i"] by simp
  next
    case False
    show ?thesis
    proof (cases "refused (inserted_row a tx)")
      case (Some msg)
      then show ?thesis
        using False
          Cons.IH [of "st\<lparr> errors := errors st @ [''Row '' @ show_nat (i + 1) @ '': '' @ msg] \<rparr>"
            "Suc i"]
        by simp
    next
      case None
      then show ?thesis
        using False
          Cons.IH [of "st\<lparr> ledger_of := ledger_of st @ [inserted_row a tx],
                     existing := insert (tx_fingerprint a tx) (existing st),
                     imported := imported st + 1 \<rparr>" "Suc i"]
        by auto
    qed
  qed
qed

lemma import_loop_covers:
  "\<forall>tx \<in> set txs. refused (inserted_row a tx) = None \<Longrightarrow>
   tx_fingerprint a ` set txs \<subseteq> existing (import_loop refused a i txs st)"
proof (induction txs arbitrary: i st)
  case Nil
  then show ?case by simp
next
  case (Cons tx txs)
  from Cons.prems have v: "\<forall>tx \<in> set txs. refused (inserted_row a tx) = None"
    and n: "refused (inserted_row a tx) = None" by simp_all
  show ?case
  proof (cases "tx_fingerprint a tx \<in> existing st")
    case True
    let ?st = "st\<lparr> skipped := skipped st + 1 \<rparr>"
    have "tx_fingerprint a tx \<in> existing ?st" using True by simp
    then have "tx_fingerprint a tx \<in> existing (import_loop refused a (Suc i) txs ?st)"
      using import_loop_grows by blast
    then show ?thesis
      using True Cons.IH [OF v, of "Suc i" ?st] by simp
  next
    case False
    let ?st = "st\<lparr> ledger_of := ledger_of st @ [inserted_row a tx],
                  existing := insert (tx_fingerprint a tx) (existing st),
                  imported := imported st + 1 \<rparr>"
    have "tx_fingerprint a tx \<in> existing ?st" by simp
    then have "tx_fingerprint a tx \<in> existing (import_loop refused a (Suc i) txs ?st)"
      using import_loop_grows by blast
    then show ?thesis
      using False n Cons.IH [OF v, of "Suc i" ?st] by simp
  qed
qed

lemma import_loop_all_known:
  "tx_fingerprint a ` set txs \<subseteq> existing st \<Longrightarrow>
   import_loop refused a i txs st = st\<lparr> skipped := skipped st + length txs \<rparr>"
proof (induction txs arbitrary: i st)
  case Nil
  then show ?case by simp
next
  case (Cons tx txs)
  then show ?case
    using Cons.IH [of "st\<lparr> skipped := skipped st + 1 \<rparr>" "Suc i"] by simp
qed

lemma import_loop_all_new:
  "\<forall>tx \<in> set txs. refused (inserted_row a tx) = None \<Longrightarrow>
   distinct (map (tx_fingerprint a) txs) \<Longrightarrow> tx_fingerprint a ` set txs \<inter> existing st = {} \<Longrightarrow>
   imported (import_loop refused a i txs st) = imported st + length txs
   \<and> skipped (import_loop refused a i txs st) = skipped st
   \<and> errors (import_loop refused a i txs st) = errors st
   \<and> ledger_of (import_loop refused a i txs st) = ledger_of st @ map (inserted_row a) txs"
proof (induction txs arbitrary: i st)
  case Nil
  then show ?case by simp
next
  case (Cons tx txs)
  let ?st = "st\<lparr> ledger_of := ledger_of st @ [inserted_row a tx],
                existing := insert (tx_fingerprint a tx) (existing st),
                imported := imported st + 1 \<rparr>"
  from Cons.prems have new: "tx_fingerprint a tx \<notin> existing st"
    and n: "refused (inserted_row a tx) = None" by auto
  have step: "import_loop refused a i (tx # txs) st = import_loop refused a (Suc i) txs ?st"
    using new n by simp
  have "tx_fingerprint a ` set txs \<inter> existing ?st = {}"
    using Cons.prems(2,3) by auto
  with Cons.prems have
    "imported (import_loop refused a (Suc i) txs ?st) = imported ?st + length txs
   \<and> skipped (import_loop refused a (Suc i) txs ?st) = skipped ?st
   \<and> errors (import_loop refused a (Suc i) txs ?st) = errors ?st
   \<and> ledger_of (import_loop refused a (Suc i) txs ?st) = ledger_of ?st @ map (inserted_row a) txs"
    by (intro Cons.IH) simp_all
  then show ?case
    unfolding step by simp
qed

lemma import_loop_counts:
  "\<forall>tx \<in> set txs. refused (inserted_row a tx) = None \<Longrightarrow>
   imported (import_loop refused a i txs st) + skipped (import_loop refused a i txs st)
     = imported st + skipped st + length txs"
proof (induction txs arbitrary: i st)
  case Nil
  then show ?case by simp
next
  case (Cons tx txs)
  from Cons.prems have v: "\<forall>tx \<in> set txs. refused (inserted_row a tx) = None"
    and n: "refused (inserted_row a tx) = None" by simp_all
  show ?case
  proof (cases "tx_fingerprint a tx \<in> existing st")
    case True
    then show ?thesis
      using Cons.IH [OF v, of "Suc i" "st\<lparr> skipped := skipped st + 1 \<rparr>"] by simp
  next
    case False
    then show ?thesis
      using n Cons.IH [OF v, of "Suc i" "st\<lparr> ledger_of := ledger_of st @ [inserted_row a tx],
                  existing := insert (tx_fingerprint a tx) (existing st),
                  imported := imported st + 1 \<rparr>"] by simp
  qed
qed


lemma import_parsed_unfold:
  "import_parsed refused a txs ledger =
     (\<lparr> r_imported = imported (import_loop refused a 0 txs
            \<lparr> ledger_of = ledger, existing = getExistingFingerprints a ledger,
              imported = 0, skipped = 0, errors = [] \<rparr>),
        r_skipped = skipped (import_loop refused a 0 txs
            \<lparr> ledger_of = ledger, existing = getExistingFingerprints a ledger,
              imported = 0, skipped = 0, errors = [] \<rparr>),
        r_total = length txs,
        r_errors = errors (import_loop refused a 0 txs
            \<lparr> ledger_of = ledger, existing = getExistingFingerprints a ledger,
              imported = 0, skipped = 0, errors = [] \<rparr>) \<rparr>,
      ledger_of (import_loop refused a 0 txs
            \<lparr> ledger_of = ledger, existing = getExistingFingerprints a ledger,
              imported = 0, skipped = 0, errors = [] \<rparr>))"
  by (simp add: import_parsed_def Let_def)

lemma reimport_skips_all:
  assumes "\<forall>tx \<in> set txs. refused (inserted_row a tx) = None"
  shows "import_parsed refused a txs (snd (import_parsed refused a txs ledger)) =
     (\<lparr> r_imported = 0, r_skipped = length txs, r_total = length txs, r_errors = [] \<rparr>,
      snd (import_parsed refused a txs ledger))"
proof -
  let ?st0 = "\<lparr> ledger_of = ledger, existing = getExistingFingerprints a ledger,
                imported = 0, skipped = 0, errors = [] \<rparr>"
  let ?st1 = "import_loop refused a 0 txs ?st0"
  have l1: "snd (import_parsed refused a txs ledger) = ledger_of ?st1"
    by (simp add: import_parsed_unfold)
  have "existing ?st1 = getExistingFingerprints a (ledger_of ?st1)"
    by (rule import_loop_mirror) simp
  moreover have "tx_fingerprint a ` set txs \<subseteq> existing ?st1"
    using assms by (rule import_loop_covers)
  ultimately have known: "tx_fingerprint a ` set txs \<subseteq> getExistingFingerprints a (ledger_of ?st1)"
    by simp
  let ?st2 = "\<lparr> ledger_of = ledger_of ?st1, existing = getExistingFingerprints a (ledger_of ?st1),
                imported = 0, skipped = 0, errors = [] \<rparr>"
  have "import_loop refused a 0 txs ?st2 = ?st2\<lparr> skipped := skipped ?st2 + length txs \<rparr>"
    using known by (intro import_loop_all_known) simp
  then show ?thesis
    unfolding l1 by (simp add: import_parsed_unfold [of refused a txs "ledger_of ?st1"])
qed

lemma same_fields_same_fingerprint:
  "it_symbol tx' = it_symbol tx \<Longrightarrow> it_type tx' = it_type tx \<Longrightarrow>
   it_quantity tx' = it_quantity tx \<Longrightarrow> it_price tx' = it_price tx \<Longrightarrow>
   date_part (it_date tx') = date_part (it_date tx) \<Longrightarrow>
   tx_fingerprint a tx' = tx_fingerprint a tx"
  by (simp add: tx_fingerprint_def buildFingerprint_def)

lemma import_pair_same_fingerprint:
  assumes "tx_fingerprint a tx' = tx_fingerprint a tx"
    "tx_fingerprint a tx \<notin> getExistingFingerprints a ledger"
    "refused (inserted_row a tx) = None"
  shows "fst (import_parsed refused a [tx, tx'] ledger) =
           \<lparr> r_imported = 1, r_skipped = 1, r_total = 2, r_errors = [] \<rparr>"
  using assms by (simp add: import_parsed_unfold Let_def)

lemma show_nat_examples:
  "show_nat 0 = ''0''" "show_nat 1 = ''1''" "show_nat 10 = ''10''" "show_nat 185 = ''185''"
  "show_nat 5000 = ''5000''"
  by (simp_all add: show_nat.simps digit_def)

lemma toFixed_examples:
  "toFixed 8 10 = ''10.00000000''" "toFixed 4 (371 / 2) = ''185.5000''"
proof -
  have r7: "replicate 7 x = [x, x, x, x, x, x, x]" for x :: char
    by (simp add: eval_nat_numeral)
  have n: "nat \<lfloor>\<bar>10 :: real\<bar> * 10 ^ 8 + 1 / 2\<rfloor> = 1000000000"
    "nat \<lfloor>\<bar>371 / 2 :: real\<bar> * 10 ^ 4 + 1 / 2\<rfloor> = 1855000"
    by simp_all
  show "toFixed 8 10 = ''10.00000000''"
    unfolding toFixed_def Let_def n(1) by (simp add: show_nat_examples r7)
  show "toFixed 4 (371 / 2) = ''185.5000''"
    unfolding toFixed_def Let_def n(2) by (simp add: show_nat_examples)
qed

lemma aapl_fingerprint:
  "tx_fingerprint 1 aapl_tx = ''1|AAPL|buy|10.00000000|185.5000|2024-01-15''"
  by (simp add: tx_fingerprint_def aapl_tx_def buildFingerprint_def toFixed_examples
      show_nat_examples [unfolded One_nat_def] date_part_def)

lemma test_fingerprints_differ: "tx_fingerprint 1 aapl_tx \<noteq> tx_fingerprint 1 msft_tx"
  by (simp add: tx_fingerprint_def aapl_tx_def msft_tx_def buildFingerprint_def)

text \<open>
  Claim C9, as stated, fails for a file with repeated rows, as its own second part says:
  a file of two identical valid rows, imported into an empty account, reports one imported
  and one skipped, not two imported and none skipped.
\<close>

theorem import_of_duplicate_rows:
  "fst (import_parsed accepts_all 1 [aapl_tx, aapl_tx] []) =
     \<lparr> r_imported = 1, r_skipped = 1, r_total = 2, r_errors = [] \<rparr>"
  by (simp add: import_parsed_unfold Let_def getExistingFingerprints_def accepts_all_def)


text \<open>
  Claim C9, amended. Let the N parsed rows of a file all be accepted by the store. If
  their fingerprints are pairwise distinct and none is in the account's ledger, the import
  reports imported = N and skipped = 0. In every case imported + skipped = N, and a second
  import of the same rows into the ledger the first one left reports imported = 0 and
  skipped = N. Two rows with equal symbol, type, quantity, price and calendar day have the
  same fingerprint for an account, and a file of two such rows, new to the ledger, is
  imported as one row with the other skipped. Fee and notes are not part of the
  fingerprint.
\<close>

theorem import_deduplicates:
  assumes valid: "\<forall>tx \<in> set parsedTx. refused (inserted_row accountId tx) = None"
  shows
  "(distinct (map (tx_fingerprint accountId) parsedTx)
      \<and> tx_fingerprint accountId ` set parsedTx \<inter> getExistingFingerprints accountId ledger = {} \<longrightarrow>
      r_imported (fst (import_parsed refused accountId parsedTx ledger)) = length parsedTx
      \<and> r_skipped (fst (import_parsed refused accountId parsedTx ledger)) = 0)
   \<and> r_imported (fst (import_parsed refused accountId parsedTx ledger))
       + r_skipped (fst (import_parsed refused accountId parsedTx ledger)) = length parsedTx
   \<and> r_imported (fst (import_parsed refused accountId parsedTx
         (snd (import_parsed refused accountId parsedTx ledger)))) = 0
   \<and> r_skipped (fst (import_parsed refused accountId parsedTx
         (snd (import_parsed refused accountId parsedTx ledger)))) = length parsedTx
   \<and> (\<forall>tx tx'. it_symbol tx' = it_symbol tx \<and> it_type tx' = it_type tx
         \<and> it_quantity tx' = it_quantity tx \<and> it_price tx' = it_price tx
         \<and> date_part (it_date tx') = date_part (it_date tx)
         \<and> tx_fingerprint accountId tx \<notin> getExistingFingerprints accountId ledger
         \<and> refused (inserted_row accountId tx) = None \<longrightarrow>
       tx_fingerprint accountId tx' = tx_fingerprint accountId tx
       \<and> r_imported (fst (import_parsed refused accountId [tx, tx'] ledger)) = 1
       \<and> r_skipped (fst (import_parsed refused accountId [tx, tx'] ledger)) = 1)
   \<and> (\<forall>tx f n. tx_fingerprint accountId (tx\<lparr> it_fee := f, it_notes := n \<rparr>)
                  = tx_fingerprint accountId tx)"
proof (intro conjI allI impI)
  let ?st0 = "\<lparr> ledger_of = ledger, existing = getExistingFingerprints accountId ledger,
                imported = 0, skipped = 0, errors = [] \<rparr>"
  assume a: "distinct (map (tx_fingerprint accountId) parsedTx)
      \<and> tx_fingerprint accountId ` set parsedTx \<inter> getExistingFingerprints accountId ledger = {}"
  then have "imported (import_loop refused accountId 0 parsedTx ?st0) = imported ?st0 + length parsedTx
   \<and> skipped (import_loop refused accountId 0 parsedTx ?st0) = skipped ?st0
   \<and> errors (import_loop refused accountId 0 parsedTx ?st0) = errors ?st0
   \<and> ledger_of (import_loop refused accountId 0 parsedTx ?st0)
       = ledger_of ?st0 @ map (inserted_row accountId) parsedTx"
    using valid by (intro import_loop_all_new) simp_all
  then show "r_imported (fst (import_parsed refused accountId parsedTx ledger)) = length parsedTx"
    and "r_skipped (fst (import_parsed refused accountId parsedTx ledger)) = 0"
    by (simp_all add: import_parsed_unfold)
next
  show "r_imported (fst (import_parsed refused accountId parsedTx ledger))
       + r_skipped (fst (import_parsed refused accountId parsedTx ledger)) = length parsedTx"
    using import_loop_counts [OF valid, of 0]
    by (simp add: import_parsed_unfold)
next
  show "r_imported (fst (import_parsed refused accountId parsedTx
         (snd (import_parsed refused accountId parsedTx ledger)))) = 0"
    and "r_skipped (fst (import_parsed refused accountId parsedTx
         (snd (import_parsed refused accountId parsedTx ledger)))) = length parsedTx"
    by (simp_all add: reimport_skips_all [OF valid])
next
  fix tx tx' :: imported_transaction
  assume a: "it_symbol tx' = it_symbol tx \<and> it_type tx' = it_type tx
         \<and> it_quantity tx' = it_quantity tx \<and> it_price tx' = it_price tx
         \<and> date_part (it_date tx') = date_part (it_date tx)
         \<and> tx_fingerprint accountId tx \<notin> getExistingFingerprints accountId ledger
         \<and> refused (inserted_row accountId tx) = None"
  then show same: "tx_fingerprint accountId tx' = tx_fingerprint accountId tx"
    by (intro same_fields_same_fingerprint) simp_all
  from a same have "fst (import_parsed refused accountId [tx, tx'] ledger) =
           \<lparr> r_imported = 1, r_skipped = 1, r_total = 2, r_errors = [] \<rparr>"
    by (intro import_pair_same_fingerprint) simp_all
  then show "r_imported (fst (import_parsed refused accountId [tx, tx'] ledger)) = 1"
    and "r_skipped (fst (import_parsed refused accountId [tx, tx'] ledger)) = 1"
    by simp_all
next
  fix tx :: imported_transaction and f n
  show "tx_fingerprint accountId (tx\<lparr> it_fee := f, it_notes := n \<rparr>)
                  = tx_fingerprint accountId tx"
    by (simp add: tx_fingerprint_def)
qed

theorem import_deduplicates_witness:
  "r_imported (fst (import_parsed accepts_all 1 [aapl_tx, msft_tx] [])) = 2
   \<and> r_skipped (fst (import_parsed accepts_all 1 [aapl_tx, msft_tx] [])) = 0
   \<and> r_imported (fst (import_parsed accepts_all 1 [aapl_tx, msft_tx]
         (snd (import_parsed accepts_all 1 [aapl_tx, msft_tx] [])))) = 0
   \<and> r_skipped (fst (import_parsed accepts_all 1 [aapl_tx, msft_tx]
         (snd (import_parsed accepts_all 1 [aapl_tx, msft_tx] [])))) = 2
   \<and> r_imported (fst (import_parsed accepts_all 1 [aapl_tx, aapl_tx\<lparr> it_fee := 5 \<rparr>] [])) = 1
   \<and> r_skipped (fst (import_parsed accepts_all 1 [aapl_tx, aapl_tx\<lparr> it_fee := 5 \<rparr>] [])) = 1"
proof -
  let ?file = "[aapl_tx, msft_tx]"
  have len: "length ?file = 2" by simp
  have valid: "\<forall>tx \<in> set ?file. accepts_all (inserted_row 1 tx) = None"
    by (simp add: accepts_all_def)
  note inst = import_deduplicates [OF valid, of "[]"]
  note ne = test_fingerprints_differ
  have d: "distinct (map (tx_fingerprint 1) ?file)
      \<and> tx_fingerprint 1 ` set ?file \<inter> getExistingFingerprints 1 [] = {}"
    using ne by (simp add: getExistingFingerprints_def del: One_nat_def)
  note first = inst [THEN conjunct1, THEN mp, OF d]
  note second = inst [THEN conjunct2, THEN conjunct2]
  have a1: "r_imported (fst (import_parsed accepts_all 1 ?file [])) = 2"
    using first [THEN conjunct1] unfolding len .
  have a2: "r_skipped (fst (import_parsed accepts_all 1 ?file [])) = 0"
    using first by (rule conjunct2)
  have b1: "r_imported (fst (import_parsed accepts_all 1 ?file
         (snd (import_parsed accepts_all 1 ?file [])))) = 0"
    using second by (rule conjunct1)
  have b2: "r_skipped (fst (import_parsed accepts_all 1 ?file
         (snd (import_parsed accepts_all 1 ?file [])))) = 2"
    using second [THEN conjunct2, THEN conjunct1] unfolding len .
  have same: "it_symbol (aapl_tx\<lparr> it_fee := 5 \<rparr>) = it_symbol aapl_tx
      \<and> it_type (aapl_tx\<lparr> it_fee := 5 \<rparr>) = it_type aapl_tx
      \<and> it_quantity (aapl_tx\<lparr> it_fee := 5 \<rparr>) = it_quantity aapl_tx
      \<and> it_price (aapl_tx\<lparr> it_fee := 5 \<rparr>) = it_price aapl_tx
      \<and> date_part (it_date (aapl_tx\<lparr> it_fee := 5 \<rparr>)) = date_part (it_date aapl_tx)
      \<and> tx_fingerprint 1 aapl_tx \<notin> getExistingFingerprints 1 []
      \<and> accepts_all (inserted_row 1 aapl_tx) = None"
    by (simp add: getExistingFingerprints_def accepts_all_def del: One_nat_def)
  note pair = second [THEN conjunct2, THEN conjunct2, THEN conjunct1, THEN spec, THEN spec,
      THEN mp, OF same]
  have c1: "r_imported (fst (import_parsed accepts_all 1 [aapl_tx, aapl_tx\<lparr> it_fee := 5 \<rparr>] [])) = 1"
    using pair [THEN conjunct2] by (rule conjunct1)
  have c2: "r_skipped (fst (import_parsed accepts_all 1 [aapl_tx, aapl_tx\<lparr> it_fee := 5 \<rparr>] [])) = 1"
    using pair [THEN conjunct2] by (rule conjunct2)
  from a1 a2 b1 b2 c1 c2 show ?thesis by (intro conjI)
qed




end
